theory Spec2Isabelle
  imports Main "HOL-Library.Word"
begin

section \<open>The fact store of the rule engine (ast/DataContext.go)\<close>

text \<open>
  The development embeds \<^verbatim>\<open>ast/DataContext.go\<close>: the \<^verbatim>\<open>DataContext\<close> struct
  (object store, retraction list, mutation counter, completion flag), its methods, and
  the four recursive path resolvers \<^verbatim>\<open>traceType\<close>, \<^verbatim>\<open>traceValue\<close>,
  \<^verbatim>\<open>traceSetValue\<close> and \<^verbatim>\<open>traceMethod\<close>.

  Go returns \<^verbatim>\<open>(value, error)\<close> tuples; the model returns the same tuples, with
  \<open>error option\<close> for Go's \<^verbatim>\<open>error\<close> (\<open>None\<close> is \<^verbatim>\<open>nil\<close>). A method with a
  pointer receiver takes the \<open>DataContext\<close> and returns it. The objects the facts
  point to live outside the store, in a heap of type \<open>'h\<close> that only the reflection
  helpers read and write.
\<close>

subsection \<open>Go's reflect package: kinds, types, values\<close>

text \<open>The 27 values of \<^verbatim>\<open>reflect.Kind\<close>, in the order of the standard library.\<close>

datatype Kind =
    Invalid | Bool | Int | Int8 | Int16 | Int32 | Int64
  | Uint | Uint8 | Uint16 | Uint32 | Uint64 | Uintptr
  | Float32 | Float64 | Complex64 | Complex128
  | Array | Chan | Func | Interface | Map | Ptr | Slice | String | Struct
  | UnsafePointer

text \<open>
  A \<^verbatim>\<open>reflect.Type\<close> as far as the fact store looks at it: its name, its kind and
  its element type. \<open>telem\<close> is \<open>None\<close> for the types on which Go's
  \<^verbatim>\<open>Type.Elem()\<close> panics (every kind but Array, Chan, Map, Ptr and Slice).
\<close>

datatype rtype = RType (tname: string) (tkind: Kind) (telem: "rtype option")

text \<open>
  A \<^verbatim>\<open>reflect.Value\<close> is the zero Value or a type with its data. \<open>Addr a\<close> is a
  non-nil pointer to heap address \<open>a\<close>, \<open>NilData\<close> a nil pointer (or nil interface,
  map, slice), \<open>Place a\<close> the addressable variable stored at \<open>a\<close> (what
  \<^verbatim>\<open>Elem()\<close> of a pointer refers to), \<open>Holds v\<close> a \<^verbatim>\<open>reflect.Value\<close> stored as
  data (an interface-kinded Value, or a \<^verbatim>\<open>reflect.Value\<close> struct boxed in an
  \<^verbatim>\<open>interface{}\<close>); the other constructors are plain data.
\<close>

datatype Value = ZeroValue | Value rtype data
and data =
    NilData | Addr nat | Place nat
  | BoolData bool | IntData int | StringData string
  | Holds Value

text \<open>A Go \<^verbatim>\<open>interface{}\<close>: nil, or a dynamic type with its data.\<close>

datatype iface = NilIface | Iface rtype data

text \<open>
  Go's \<^verbatim>\<open>error\<close> values. The source builds them with \<^verbatim>\<open>fmt.Errorf\<close>; one
  constructor stands for each message, carrying the formatted arguments:
  \<^item> \<open>InvalidFactKind k\<close>: "you can only insert a pointer to struct as fact. objVal = k";
  \<^item> \<open>FactRetracted\<close>: "fact is retracted";
  \<^item> \<open>FactNotFound s\<close>: "fact [s] not found while ...";
  \<^item> \<open>NoPathSpecified\<close>: "no attribute path specified", "no function path specified";
  \<^item> \<open>FetchParameterTypesFailed f e\<close>: "error while fetching function f() parameter
    types. Got e";
  \<^item> \<open>ArgumentCountMismatch f n m\<close>: "invalid argument count for function f(). need n
    argument while there are m";
  \<^item> \<open>ArgumentTypeMismatch f i k k'\<close>: "invalid argument types for function f().
    argument #i, require k but k'" and its "invalid variadic argument types" variant;
  \<^item> \<open>UnsupportedMultiReturn f\<close>: "multiple return value for function f(). ";
  \<^item> \<open>PkgError s\<close>: an error made by a helper of package \<^verbatim>\<open>pkg\<close>;
  \<^item> \<open>RuntimePanic\<close>: a Go run-time panic (index out of range, \<^verbatim>\<open>Elem\<close> of a type
    without element type), which unwinds the call instead of returning.
\<close>

datatype error =
    InvalidFactKind Kind
  | FactRetracted
  | FactNotFound string
  | NoPathSpecified
  | FetchParameterTypesFailed string error
  | ArgumentCountMismatch string nat nat
  | ArgumentTypeMismatch string nat Kind Kind
  | UnsupportedMultiReturn string
  | PkgError string
  | RuntimePanic

text \<open>\<^verbatim>\<open>reflect.ValueOf\<close> and \<^verbatim>\<open>reflect.TypeOf\<close>: nil gives the zero Value and the nil Type.\<close>

fun ValueOf :: "iface \<Rightarrow> Value" where
  "ValueOf NilIface = ZeroValue"
| "ValueOf (Iface t d) = Value t d"

fun TypeOf :: "iface \<Rightarrow> rtype option" where
  "TypeOf NilIface = None"
| "TypeOf (Iface t d) = Some t"

text \<open>\<^verbatim>\<open>Value.Kind()\<close>: the zero Value has kind Invalid.\<close>

fun Value_Kind :: "Value \<Rightarrow> Kind" where
  "Value_Kind ZeroValue = Invalid"
| "Value_Kind (Value t d) = tkind t"

text \<open>
  \<^verbatim>\<open>Value.Elem()\<close>: the Value a pointer points to or an interface contains; the
  zero Value for a nil pointer or nil interface; a panic for every other kind.
\<close>

fun Value_Elem :: "Value \<Rightarrow> error + Value" where
  "Value_Elem ZeroValue = Inl RuntimePanic"
| "Value_Elem (Value t d) =
     (if tkind t = Ptr then
        (case d of
           Addr a \<Rightarrow> (case telem t of Some e \<Rightarrow> Inr (Value e (Place a)) | None \<Rightarrow> Inl RuntimePanic)
         | _ \<Rightarrow> Inr ZeroValue)
      else if tkind t = Interface then
        (case d of Holds v \<Rightarrow> Inr v | _ \<Rightarrow> Inr ZeroValue)
      else Inl RuntimePanic)"

text \<open>\<^verbatim>\<open>Type.Elem()\<close>: panics when the type has no element type.\<close>

definition Type_Elem :: "rtype \<Rightarrow> error + rtype" where
  "Type_Elem t = (case telem t of Some e \<Rightarrow> Inr e | None \<Rightarrow> Inl RuntimePanic)"

text \<open>
  A \<^verbatim>\<open>reflect.Value\<close> passed where an \<^verbatim>\<open>interface{}\<close> is expected is boxed as a
  struct of type \<^verbatim>\<open>reflect.Value\<close>; \<^verbatim>\<open>traceSetValue\<close> and \<^verbatim>\<open>traceMethod\<close> do so
  in their recursive calls.
\<close>

definition ValueAsInterface :: "Value \<Rightarrow> iface" where
  "ValueAsInterface v = Iface (RType ''reflect.Value'' Struct None) (Holds v)"

subsection \<open>The helpers of package pkg\<close>

text \<open>
  The reflection helpers \<^verbatim>\<open>pkg.GetAttributeValue\<close>, \<^verbatim>\<open>pkg.GetAttributeType\<close>,
  \<^verbatim>\<open>pkg.SetAttributeValue\<close>, \<^verbatim>\<open>pkg.GetFunctionParameterTypes\<close>,
  \<^verbatim>\<open>pkg.InvokeFunction\<close> and \<^verbatim>\<open>pkg.ValueToInterface\<close> are imported by
  \<^verbatim>\<open>DataContext.go\<close> and defined elsewhere. They are parameters of the model: every
  theorem below holds for all helpers of these signatures. The readers take the heap,
  the two writers (\<^verbatim>\<open>SetAttributeValue\<close>, \<^verbatim>\<open>InvokeFunction\<close>) also return it. None
  of them is given the \<open>DataContext\<close>: a fact's method that calls back into the store
  that holds it is outside the model.
\<close>

record 'h pkg =
  GetAttributeValue :: "'h \<Rightarrow> iface \<Rightarrow> string \<Rightarrow> Value \<times> error option"
  GetAttributeType :: "'h \<Rightarrow> iface \<Rightarrow> string \<Rightarrow> rtype option \<times> error option"
  SetAttributeValue :: "'h \<Rightarrow> iface \<Rightarrow> string \<Rightarrow> Value \<Rightarrow> 'h \<times> error option"
  GetFunctionParameterTypes :: "'h \<Rightarrow> iface \<Rightarrow> string \<Rightarrow> (rtype list \<times> bool) \<times> error option"
  InvokeFunction :: "'h \<Rightarrow> iface \<Rightarrow> string \<Rightarrow> iface list \<Rightarrow> 'h \<times> iface list \<times> error option"
  ValueToInterface :: "'h \<Rightarrow> Value \<Rightarrow> iface"

subsection \<open>strings.Split on a one-byte separator\<close>

text \<open>
  \<^verbatim>\<open>strings.Split(s, ".")\<close> cuts \<open>s\<close> at every separator byte and returns the
  pieces, one more than there are separators; \<open>acc\<close> holds the current piece reversed.
\<close>

fun Split_from :: "string \<Rightarrow> char \<Rightarrow> string \<Rightarrow> string list" where
  "Split_from acc sep [] = [rev acc]"
| "Split_from acc sep (c # cs) =
     (if c = sep then rev acc # Split_from [] sep cs else Split_from (c # acc) sep cs)"

definition Split :: "string \<Rightarrow> char \<Rightarrow> string list" where
  "Split s sep = Split_from [] sep s"

subsection \<open>DataContext\<close>

record DataContext =
  ObjectStore :: "string \<rightharpoonup> iface"
  retracted :: "string list"
  variableChangeCount :: "64 word"
  complete :: bool

definition NewDataContext :: DataContext where
  "NewDataContext =
     \<lparr>ObjectStore = Map.empty, retracted = [], variableChangeCount = 0, complete = False\<rparr>"

definition Complete :: "DataContext \<Rightarrow> DataContext" where
  "Complete ctx = ctx\<lparr>complete := True\<rparr>"

definition IsComplete :: "DataContext \<Rightarrow> bool" where
  "IsComplete ctx = complete ctx"

definition ResetVariableChangeCount :: "DataContext \<Rightarrow> DataContext" where
  "ResetVariableChangeCount ctx = ctx\<lparr>variableChangeCount := 0\<rparr>"

definition IncrementVariableChangeCount :: "DataContext \<Rightarrow> DataContext" where
  "IncrementVariableChangeCount ctx = ctx\<lparr>variableChangeCount := variableChangeCount ctx + 1\<rparr>"

definition HasVariableChange :: "DataContext \<Rightarrow> bool" where
  "HasVariableChange ctx = (variableChangeCount ctx > 0)"

text \<open>
  \<^verbatim>\<open>Add\<close>: the \<^verbatim>\<open>||\<close> of the source evaluates \<^verbatim>\<open>objVal.Elem()\<close> only when the
  kind is Ptr.
\<close>

definition Add :: "string \<Rightarrow> iface \<Rightarrow> DataContext \<Rightarrow> error option \<times> DataContext" where
  "Add key obj ctx =
     (let objVal = ValueOf obj in
      if Value_Kind objVal \<noteq> Ptr then (Some (InvalidFactKind (Value_Kind objVal)), ctx)
      else case Value_Elem objVal of
             Inl p \<Rightarrow> (Some p, ctx)
           | Inr el \<Rightarrow>
               if Value_Kind el \<noteq> Struct then (Some (InvalidFactKind (Value_Kind objVal)), ctx)
               else (None, ctx\<lparr>ObjectStore := (ObjectStore ctx)(key \<mapsto> obj)\<rparr>))"

definition Retract :: "string \<Rightarrow> DataContext \<Rightarrow> DataContext" where
  "Retract key ctx = ctx\<lparr>retracted := retracted ctx @ [key]\<rparr>"

text \<open>The \<^verbatim>\<open>for ... range ctx.retracted\<close> loop of \<^verbatim>\<open>IsRetracted\<close>.\<close>

fun IsRetracted_loop :: "string list \<Rightarrow> string \<Rightarrow> bool" where
  "IsRetracted_loop [] key = False"
| "IsRetracted_loop (v # vs) key = (if v = key then True else IsRetracted_loop vs key)"

definition IsRetracted :: "DataContext \<Rightarrow> string \<Rightarrow> bool" where
  "IsRetracted ctx key = IsRetracted_loop (retracted ctx) key"

definition Retracted :: "DataContext \<Rightarrow> string list" where
  "Retracted ctx = retracted ctx"

definition Reset :: "DataContext \<Rightarrow> DataContext" where
  "Reset ctx = ctx\<lparr>retracted := []\<rparr>"

definition ResetAllFiledZero :: "DataContext \<Rightarrow> DataContext" where
  "ResetAllFiledZero ctx =
     ctx\<lparr>complete := False, ObjectStore := Map.empty, retracted := [], variableChangeCount := 0\<rparr>"

subsection \<open>The path resolvers\<close>

fun traceType :: "'h pkg \<Rightarrow> 'h \<Rightarrow> iface \<Rightarrow> string list \<Rightarrow> rtype option \<times> error option" where
  "traceType P h obj [] = (TypeOf obj, None)"
| "traceType P h obj [f] = GetAttributeType P h obj f"
| "traceType P h obj (f # g # rest) =
     (case GetAttributeValue P h obj f of
        (objVal, Some err) \<Rightarrow> (None, Some err)
      | (objVal, None) \<Rightarrow> traceType P h (ValueToInterface P h objVal) (g # rest))"

fun traceValue :: "'h pkg \<Rightarrow> 'h \<Rightarrow> iface \<Rightarrow> string list \<Rightarrow> Value \<times> error option" where
  "traceValue P h obj [] = (ValueOf obj, None)"
| "traceValue P h obj [f] = GetAttributeValue P h obj f"
| "traceValue P h obj (f # g # rest) =
     (case GetAttributeValue P h obj f of
        (objVal, Some err) \<Rightarrow> (objVal, Some err)
      | (objVal, None) \<Rightarrow> traceValue P h (ValueToInterface P h objVal) (g # rest))"

text \<open>
  \<^verbatim>\<open>traceSetValue\<close> recurses on \<^verbatim>\<open>objVal\<close> itself, the \<^verbatim>\<open>reflect.Value\<close>, not
  on \<^verbatim>\<open>pkg.ValueToInterface(objVal)\<close>.
\<close>

fun traceSetValue :: "'h pkg \<Rightarrow> 'h \<Rightarrow> iface \<Rightarrow> string list \<Rightarrow> Value \<Rightarrow> 'h \<times> error option" where
  "traceSetValue P h obj [] newValue = (h, Some NoPathSpecified)"
| "traceSetValue P h obj [f] newValue = SetAttributeValue P h obj f newValue"
| "traceSetValue P h obj (f # g # rest) newValue =
     (case GetAttributeValue P h obj f of
        (objVal, Some err) \<Rightarrow> (h, Some err)
      | (objVal, None) \<Rightarrow> traceSetValue P h (ValueAsInterface objVal) (g # rest) newValue)"

text \<open>
  The first loop of \<^verbatim>\<open>traceMethod\<close>, \<^verbatim>\<open>for i, t := range types\<close>, from index
  \<open>i\<close> on: it stops at the last parameter of a variadic method, reads
  \<^verbatim>\<open>args[i]\<close> (a panic when \<open>i\<close> is out of range) and fills \<^verbatim>\<open>iargs[i]\<close>.
\<close>

function fixed_loop ::
  "'h pkg \<Rightarrow> 'h \<Rightarrow> string \<Rightarrow> rtype list \<Rightarrow> bool \<Rightarrow> Value list \<Rightarrow> nat \<Rightarrow> iface list \<Rightarrow> error + iface list"
where
  "fixed_loop P h name types variad args i iargs =
     (if i < length types then
        if variad \<and> Suc i = length types then Inr iargs
        else if length args \<le> i then Inl RuntimePanic
        else if tkind (types ! i) \<noteq> Value_Kind (args ! i) then
          if tkind (types ! i) = Interface then
            fixed_loop P h name types variad args (Suc i)
              (iargs[i := ValueToInterface P h (args ! i)])
          else Inl (ArgumentTypeMismatch name i (tkind (types ! i)) (Value_Kind (args ! i)))
        else
          fixed_loop P h name types variad args (Suc i)
            (iargs[i := ValueToInterface P h (args ! i)])
      else Inr iargs)"
  by pat_completeness auto
termination
  by (relation "measure (\<lambda>(P, h, name, types, variad, args, i, iargs). length types - i)") auto

text \<open>
  The second loop, \<^verbatim>\<open>for i := len(types) - 1; i < len(args); i++\<close>, from index
  \<open>i\<close> on, with \<open>typ\<close> the kind of the variadic element.
\<close>

function variadic_loop ::
  "'h pkg \<Rightarrow> 'h \<Rightarrow> string \<Rightarrow> Kind \<Rightarrow> Value list \<Rightarrow> nat \<Rightarrow> iface list \<Rightarrow> error + iface list"
where
  "variadic_loop P h name typ args i iargs =
     (if i < length args then
        if Value_Kind (args ! i) \<noteq> typ then
          Inl (ArgumentTypeMismatch name i typ (Value_Kind (args ! i)))
        else variadic_loop P h name typ args (Suc i) (iargs[i := ValueToInterface P h (args ! i)])
      else Inr iargs)"
  by pat_completeness auto
termination
  by (relation "measure (\<lambda>(P, h, name, typ, args, i, iargs). length args - i)") auto

text \<open>
  The \<^verbatim>\<open>if variad\<close> block: \<^verbatim>\<open>types[len(types)-1]\<close> panics on an empty list,
  \<^verbatim>\<open>Elem()\<close> on a type without element type.
\<close>

definition variadic_args ::
  "'h pkg \<Rightarrow> 'h \<Rightarrow> string \<Rightarrow> rtype list \<Rightarrow> bool \<Rightarrow> Value list \<Rightarrow> iface list \<Rightarrow> error + iface list"
where
  "variadic_args P h name types variad args iargs =
     (if variad then
        if types = [] then Inl RuntimePanic
        else case Type_Elem (types ! (length types - 1)) of
               Inl p \<Rightarrow> Inl p
             | Inr el \<Rightarrow> variadic_loop P h name (tkind el) args (length types - 1) iargs
      else Inr iargs)"

text \<open>
  The argument checks of the \<^verbatim>\<open>length == 1\<close> case of \<^verbatim>\<open>traceMethod\<close>: the
  count test, then the two loops. \<^verbatim>\<open>iargs\<close> starts as \<^verbatim>\<open>len(args)\<close> nil
  interfaces.
\<close>

definition check_args ::
  "'h pkg \<Rightarrow> 'h \<Rightarrow> string \<Rightarrow> rtype list \<Rightarrow> bool \<Rightarrow> Value list \<Rightarrow> error + iface list"
where
  "check_args P h name types variad args =
     (if length types \<noteq> length args \<and> \<not> variad then
        Inl (ArgumentCountMismatch name (length types) (length args))
      else
        (case fixed_loop P h name types variad args 0 (replicate (length args) NilIface) of
           Inl e \<Rightarrow> Inl e
         | Inr iargs \<Rightarrow> variadic_args P h name types variad args iargs))"

text \<open>
  The \<^verbatim>\<open>switch retLen\<close> that ends the \<^verbatim>\<open>length == 1\<close> case: what the caller
  gets for the values a method returned.
\<close>

definition return_values :: "string \<Rightarrow> iface list \<Rightarrow> Value \<times> error option" where
  "return_values name rets =
     (if length rets > 1 then (ValueOf (rets ! 0), Some (UnsupportedMultiReturn name))
      else if length rets = 1 then (ValueOf (rets ! 0), None)
      else (ZeroValue, None))"

text \<open>
  The \<^verbatim>\<open>length == 1\<close> case as a whole: fetch the parameter types, check the
  arguments, invoke, hand back the return values.
\<close>

definition invoke ::
  "'h pkg \<Rightarrow> 'h \<Rightarrow> iface \<Rightarrow> string \<Rightarrow> Value list \<Rightarrow> (Value \<times> error option) \<times> 'h"
where
  "invoke P h obj name args =
     (case GetFunctionParameterTypes P h obj name of
        (tv, Some err) \<Rightarrow> ((ZeroValue, Some (FetchParameterTypesFailed name err)), h)
      | ((types, variad), None) \<Rightarrow>
          (case check_args P h name types variad args of
             Inl e \<Rightarrow> ((ZeroValue, Some e), h)
           | Inr iargs \<Rightarrow>
               (case InvokeFunction P h obj name iargs of
                  (h', rets, Some err) \<Rightarrow> ((ZeroValue, Some err), h')
                | (h', rets, None) \<Rightarrow> (return_values name rets, h'))))"

text \<open>
  \<^verbatim>\<open>traceMethod\<close> recurses on \<^verbatim>\<open>objVal\<close> itself, as \<^verbatim>\<open>traceSetValue\<close> does.
\<close>

fun traceMethod ::
  "'h pkg \<Rightarrow> 'h \<Rightarrow> iface \<Rightarrow> string list \<Rightarrow> Value list \<Rightarrow> (Value \<times> error option) \<times> 'h"
where
  "traceMethod P h obj [] args = ((ZeroValue, Some NoPathSpecified), h)"
| "traceMethod P h obj [name] args = invoke P h obj name args"
| "traceMethod P h obj (f # g # rest) args =
     (case GetAttributeValue P h obj f of
        (objVal, Some err) \<Rightarrow> ((ZeroValue, Some err), h)
      | (objVal, None) \<Rightarrow> traceMethod P h (ValueAsInterface objVal) (g # rest) args)"

subsection \<open>The path operations of DataContext\<close>

text \<open>
  Each operation splits the path at the dots and looks the first piece up.
  \<^verbatim>\<open>varArray[0]\<close> panics on an empty slice; \<open>Split_not_Nil\<close> below shows that
  \<^verbatim>\<open>strings.Split\<close> never returns one. The \<^verbatim>\<open>fmt.Printf\<close> of \<^verbatim>\<open>GetValue\<close>
  writes to standard output only and is left out.
\<close>

definition ExecMethod ::
  "'h pkg \<Rightarrow> string \<Rightarrow> Value list \<Rightarrow> DataContext \<Rightarrow> 'h \<Rightarrow> (Value \<times> error option) \<times> DataContext \<times> 'h"
where
  "ExecMethod P methodName args ctx h =
     (case Split methodName CHR ''.'' of
        [] \<Rightarrow> ((ZeroValue, Some RuntimePanic), ctx, h)
      | key # path \<Rightarrow>
          (case ObjectStore ctx key of
             Some val \<Rightarrow>
               if \<not> IsRetracted ctx key then
                 (case traceMethod P h val path args of (r, h') \<Rightarrow> (r, ctx, h'))
               else ((ZeroValue, Some FactRetracted), ctx, h)
           | None \<Rightarrow> ((ZeroValue, Some (FactNotFound key)), ctx, h)))"

definition GetType ::
  "'h pkg \<Rightarrow> string \<Rightarrow> DataContext \<Rightarrow> 'h \<Rightarrow> (rtype option \<times> error option) \<times> DataContext \<times> 'h"
where
  "GetType P variable ctx h =
     (case Split variable CHR ''.'' of
        [] \<Rightarrow> ((None, Some RuntimePanic), ctx, h)
      | key # path \<Rightarrow>
          (case ObjectStore ctx key of
             Some val \<Rightarrow>
               if \<not> IsRetracted ctx key then (traceType P h val path, ctx, h)
               else ((None, Some FactRetracted), ctx, h)
           | None \<Rightarrow> ((None, Some (FactNotFound variable)), ctx, h)))"

definition GetValue ::
  "'h pkg \<Rightarrow> string \<Rightarrow> DataContext \<Rightarrow> 'h \<Rightarrow> (Value \<times> error option) \<times> DataContext \<times> 'h"
where
  "GetValue P variable ctx h =
     (case Split variable CHR ''.'' of
        [] \<Rightarrow> ((ZeroValue, Some RuntimePanic), ctx, h)
      | key # path \<Rightarrow>
          (case ObjectStore ctx key of
             Some val \<Rightarrow>
               if \<not> IsRetracted ctx key then (traceValue P h val path, ctx, h)
               else ((ZeroValue, Some FactRetracted), ctx, h)
           | None \<Rightarrow> ((ZeroValue, Some (FactNotFound key)), ctx, h)))"

definition SetValue ::
  "'h pkg \<Rightarrow> string \<Rightarrow> Value \<Rightarrow> DataContext \<Rightarrow> 'h \<Rightarrow> error option \<times> DataContext \<times> 'h"
where
  "SetValue P variable newValue ctx h =
     (case Split variable CHR ''.'' of
        [] \<Rightarrow> (Some RuntimePanic, ctx, h)
      | key # path \<Rightarrow>
          (case ObjectStore ctx key of
             Some val \<Rightarrow>
               if \<not> IsRetracted ctx key then
                 (case traceSetValue P h val path newValue of
                    (h', None) \<Rightarrow> (None, ctx\<lparr>variableChangeCount := variableChangeCount ctx + 1\<rparr>, h')
                  | (h', Some err) \<Rightarrow> (Some err, ctx, h'))
               else (Some FactRetracted, ctx, h)
           | None \<Rightarrow> (Some (FactNotFound key), ctx, h)))"

subsection \<open>Sequences of calls\<close>

text \<open>
  The calls of interface \<^verbatim>\<open>IDataContext\<close> that can change the store or the facts.
  The four queries (\<^verbatim>\<open>HasVariableChange\<close>, \<^verbatim>\<open>IsRetracted\<close>, \<^verbatim>\<open>IsComplete\<close>,
  \<^verbatim>\<open>Retracted\<close>) only read and are not listed.
\<close>

datatype call =
    CallResetVariableChangeCount
  | CallIncrementVariableChangeCount
  | CallAdd string iface
  | CallRetract string
  | CallComplete
  | CallReset
  | CallExecMethod string "Value list"
  | CallGetType string
  | CallGetValue string
  | CallSetValue string Value
  | CallResetAllFiledZero

fun exec :: "'h pkg \<Rightarrow> call \<Rightarrow> DataContext \<times> 'h \<Rightarrow> DataContext \<times> 'h" where
  "exec P CallResetVariableChangeCount (ctx, h) = (ResetVariableChangeCount ctx, h)"
| "exec P CallIncrementVariableChangeCount (ctx, h) = (IncrementVariableChangeCount ctx, h)"
| "exec P (CallAdd key obj) (ctx, h) = (snd (Add key obj ctx), h)"
| "exec P (CallRetract key) (ctx, h) = (Retract key ctx, h)"
| "exec P CallComplete (ctx, h) = (Complete ctx, h)"
| "exec P CallReset (ctx, h) = (Reset ctx, h)"
| "exec P (CallExecMethod methodName args) (ctx, h) = snd (ExecMethod P methodName args ctx h)"
| "exec P (CallGetType variable) (ctx, h) = snd (GetType P variable ctx h)"
| "exec P (CallGetValue variable) (ctx, h) = snd (GetValue P variable ctx h)"
| "exec P (CallSetValue variable newValue) (ctx, h) = snd (SetValue P variable newValue ctx h)"
| "exec P CallResetAllFiledZero (ctx, h) = (ResetAllFiledZero ctx, h)"

fun run :: "'h pkg \<Rightarrow> call list \<Rightarrow> DataContext \<times> 'h \<Rightarrow> DataContext \<times> 'h" where
  "run P [] s = s"
| "run P (c # cs) s = run P cs (exec P c s)"

text \<open>
  Bookkeeping over a sequence of calls, for stating what the counter and the retraction
  list hold. \<open>tally\<close> steps the number of counted changes: a successful
  \<^verbatim>\<open>SetValue\<close> and \<^verbatim>\<open>IncrementVariableChangeCount\<close> add one,
  \<^verbatim>\<open>ResetVariableChangeCount\<close> and \<^verbatim>\<open>ResetAllFiledZero\<close> start again from zero.
\<close>

fun tally :: "'h pkg \<Rightarrow> call \<Rightarrow> DataContext \<times> 'h \<Rightarrow> nat \<Rightarrow> nat" where
  "tally P (CallSetValue variable newValue) (ctx, h) n =
     (if fst (SetValue P variable newValue ctx h) = None then Suc n else n)"
| "tally P CallIncrementVariableChangeCount s n = Suc n"
| "tally P CallResetVariableChangeCount s n = 0"
| "tally P CallResetAllFiledZero s n = 0"
| "tally P c s n = n"

fun changes :: "'h pkg \<Rightarrow> call list \<Rightarrow> DataContext \<times> 'h \<Rightarrow> nat \<Rightarrow> nat" where
  "changes P [] s n = n"
| "changes P (c # cs) s n = changes P cs (exec P c s) (tally P c s n)"

text \<open>
  \<open>retract_log cs log\<close>: the keys passed to \<^verbatim>\<open>Retract\<close> since the last
  \<^verbatim>\<open>Reset\<close> or \<^verbatim>\<open>ResetAllFiledZero\<close>, in call order, one entry for each call.
\<close>

fun retract_log :: "call list \<Rightarrow> string list \<Rightarrow> string list" where
  "retract_log [] log = log"
| "retract_log (CallRetract key # cs) log = retract_log cs (log @ [key])"
| "retract_log (CallReset # cs) log = retract_log cs []"
| "retract_log (CallResetAllFiledZero # cs) log = retract_log cs []"
| "retract_log (c # cs) log = retract_log cs log"

fun clears_retracted :: "call \<Rightarrow> bool" where
  "clears_retracted CallReset = True"
| "clears_retracted CallResetAllFiledZero = True"
| "clears_retracted c = False"

text \<open>
  \<open>adds key c ctx\<close>: call \<open>c\<close> on store \<open>ctx\<close> is an \<^verbatim>\<open>Add\<close> of \<open>key\<close>
  that is accepted. \<open>never_added P key cs s\<close>: no call of \<open>cs\<close>, run from \<open>s\<close>,
  is one.
\<close>

fun adds :: "string \<Rightarrow> call \<Rightarrow> DataContext \<Rightarrow> bool" where
  "adds key (CallAdd key' obj) ctx = (key' = key \<and> fst (Add key' obj ctx) = None)"
| "adds key c ctx = False"

fun never_added :: "'h pkg \<Rightarrow> string \<Rightarrow> call list \<Rightarrow> DataContext \<times> 'h \<Rightarrow> bool" where
  "never_added P key [] s = True"
| "never_added P key (c # cs) s = (\<not> adds key c (fst s) \<and> never_added P key cs (exec P c s))"

subsection \<open>Notions of the specification\<close>

text \<open>
  A pointer to a struct: a non-nil pointer whose element type is a struct type.
\<close>

fun pointer_to_struct :: "iface \<Rightarrow> bool" where
  "pointer_to_struct (Iface (RType n k (Some el)) (Addr a)) = (k = Ptr \<and> tkind el = Struct)"
| "pointer_to_struct obj = False"

text \<open>
  Go's types have an element type exactly when their kind is Array, Chan, Map, Ptr or
  Slice; \<open>rtype\<close> has more values than that, and \<open>wf_type\<close> marks the ones Go has.
\<close>

fun wf_type :: "rtype \<Rightarrow> bool" where
  "wf_type (RType n k None) = (k \<notin> {Array, Chan, Map, Ptr, Slice})"
| "wf_type (RType n k (Some el)) = (k \<in> {Array, Chan, Map, Ptr, Slice} \<and> wf_type el)"

fun wf_iface :: "iface \<Rightarrow> bool" where
  "wf_iface NilIface = True"
| "wf_iface (Iface t d) = wf_type t"

text \<open>
  The receiver of a method call: the specification's "traverses all but the last
  segment as reads", each read result passed on as \<^verbatim>\<open>traceMethod\<close> passes it.
\<close>

fun receiver :: "'h pkg \<Rightarrow> 'h \<Rightarrow> iface \<Rightarrow> string list \<Rightarrow> error + iface" where
  "receiver P h obj [] = Inr obj"
| "receiver P h obj (f # fs) =
     (case GetAttributeValue P h obj f of
        (objVal, Some err) \<Rightarrow> Inl err
      | (objVal, None) \<Rightarrow> receiver P h (ValueAsInterface objVal) fs)"

text \<open>
  The fixed parameters of a method: all of them, or all but the last of a variadic one.
\<close>

definition fixed_params :: "rtype list \<Rightarrow> bool \<Rightarrow> rtype list" where
  "fixed_params types variad = (if variad then butlast types else types)"

subsection \<open>A concrete fact type\<close>

text \<open>
  The fact type of \<^verbatim>\<open>examples/Issue5_test.go\<close>, \<^verbatim>\<open>AUser\<close> with its field
  \<^verbatim>\<open>Name\<close> and its methods \<^verbatim>\<open>GetName\<close> and \<^verbatim>\<open>SetName\<close>, for evaluating the
  theorems on concrete stores. The heap maps the address of each \<^verbatim>\<open>AUser\<close> to its
  \<^verbatim>\<open>Name\<close>.
\<close>

definition string_type :: rtype where
  "string_type = RType ''string'' String None"

definition int_type :: rtype where
  "int_type = RType ''int'' Kind.Int None"

definition AUser_type :: rtype where
  "AUser_type = RType ''AUser'' Struct None"

definition AUser_ptr :: "nat \<Rightarrow> iface" where
  "AUser_ptr a = Iface (RType ''*AUser'' Ptr (Some AUser_type)) (Addr a)"

fun AUser_at :: "(nat \<rightharpoonup> string) \<Rightarrow> iface \<Rightarrow> (nat \<times> string) option" where
  "AUser_at h (Iface t (Addr a)) =
     (if t = RType ''*AUser'' Ptr (Some AUser_type) then map_option (Pair a) (h a) else None)"
| "AUser_at h obj = None"

text \<open>
  Modelled from the spec: the helpers of package \<^verbatim>\<open>pkg\<close>, which \<^verbatim>\<open>DataContext.go\<close>
  imports and whose code is not at hand, restricted to facts of type \<^verbatim>\<open>*AUser\<close>: a
  read fails with an error when the segment names no field, a write is type-checked, a
  method is called with the converted arguments. Two methods that the test file does not
  have are added to reach every branch of \<^verbatim>\<open>traceMethod\<close>:
  \<^verbatim>\<open>Names() (string, string)\<close> with two return values and the variadic
  \<^verbatim>\<open>Rate(label string, scores ...int) int\<close>.
\<close>

definition AUser_pkg :: "(nat \<rightharpoonup> string) pkg" where
  "AUser_pkg =
     \<lparr>GetAttributeValue = (\<lambda>h obj f.
        case AUser_at h obj of
          None \<Rightarrow> (ZeroValue, Some (PkgError ''param is not a struct''))
        | Some (a, n) \<Rightarrow>
            if f = ''Name'' then (Value string_type (StringData n), None)
            else (ZeroValue, Some (PkgError ''attribute not found''))),
      GetAttributeType = (\<lambda>h obj f.
        case AUser_at h obj of
          None \<Rightarrow> (None, Some (PkgError ''param is not a struct''))
        | Some (a, n) \<Rightarrow>
            if f = ''Name'' then (Some string_type, None)
            else (None, Some (PkgError ''attribute not found''))),
      SetAttributeValue = (\<lambda>h obj f v.
        case AUser_at h obj of
          None \<Rightarrow> (h, Some (PkgError ''param is not a struct''))
        | Some (a, n) \<Rightarrow>
            if f \<noteq> ''Name'' then (h, Some (PkgError ''attribute not found''))
            else (case v of
                    Value t (StringData s) \<Rightarrow> (h(a \<mapsto> s), None)
                  | _ \<Rightarrow> (h, Some (PkgError ''can not assign'')))),
      GetFunctionParameterTypes = (\<lambda>h obj m.
        if AUser_at h obj = None then (([], False), Some (PkgError ''param is not a struct''))
        else if m = ''GetName'' then (([], False), None)
        else if m = ''SetName'' then (([string_type], False), None)
        else if m = ''Names'' then (([], False), None)
        else if m = ''Rate'' then
          (([string_type, RType ''[]int'' Slice (Some int_type)], True), None)
        else (([], False), Some (PkgError ''function not found''))),
      InvokeFunction = (\<lambda>h obj m iargs.
        case AUser_at h obj of
          None \<Rightarrow> (h, [], Some (PkgError ''param is not a struct''))
        | Some (a, n) \<Rightarrow>
            if m = ''GetName'' then (h, [Iface string_type (StringData n)], None)
            else if m = ''SetName'' then
              (case iargs of
                 [Iface t (StringData s)] \<Rightarrow> (h(a \<mapsto> s), [], None)
               | _ \<Rightarrow> (h, [], Some (PkgError ''can not call'')))
            else if m = ''Names'' then
              (h, [Iface string_type (StringData n), Iface string_type (StringData n)], None)
            else if m = ''Rate'' then (h, [Iface int_type (IntData (int (length iargs)))], None)
            else (h, [], Some (PkgError ''function not found''))),
      ValueToInterface = (\<lambda>h v. case v of ZeroValue \<Rightarrow> NilIface | Value t d \<Rightarrow> Iface t d)\<rparr>"

text \<open>
  The store and heap of the test: one \<^verbatim>\<open>AUser\<close> named Watson at address 0, added
  as fact \<^verbatim>\<open>User\<close>.
\<close>

definition Watson_heap :: "nat \<rightharpoonup> string" where
  "Watson_heap = [0 \<mapsto> ''Watson'']"

definition Watson_store :: DataContext where
  "Watson_store = snd (Add ''User'' (AUser_ptr 0) NewDataContext)"

section \<open>Properties\<close>

subsection \<open>Splitting paths, looking up retractions\<close>

lemma Split_from_not_Nil: "Split_from acc sep s \<noteq> []"
  by (induction s arbitrary: acc) auto

lemma Split_not_Nil: "Split s sep \<noteq> []"
  by (simp add: Split_def Split_from_not_Nil)

lemma Split_from_no_sep: "sep \<notin> set s \<Longrightarrow> Split_from acc sep s = [rev acc @ s]"
  by (induction s arbitrary: acc) auto

lemma Split_no_sep: "sep \<notin> set s \<Longrightarrow> Split s sep = [s]"
  by (simp add: Split_def Split_from_no_sep)

lemma Split_hd_tl: "Split s sep = hd (Split s sep) # tl (Split s sep)"
  using Split_not_Nil [of s sep] by simp

lemma IsRetracted_loop_set: "IsRetracted_loop vs key = (key \<in> set vs)"
  by (induction vs) auto

lemma IsRetracted_set: "IsRetracted ctx key = (key \<in> set (retracted ctx))"
  by (simp add: IsRetracted_def IsRetracted_loop_set)

subsection \<open>What each operation leaves alone\<close>

lemma GetValue_ctx: "snd (GetValue P variable ctx h) = (ctx, h)"
  by (simp add: GetValue_def split: list.splits option.splits)

lemma GetType_ctx: "snd (GetType P variable ctx h) = (ctx, h)"
  by (simp add: GetType_def split: list.splits option.splits)

lemma ExecMethod_ctx: "fst (snd (ExecMethod P methodName args ctx h)) = ctx"
  by (simp add: ExecMethod_def split: list.splits option.splits prod.splits)

lemma SetValue_None:
  "fst (SetValue P variable newValue ctx h) = None \<Longrightarrow>
   fst (snd (SetValue P variable newValue ctx h)) =
     ctx\<lparr>variableChangeCount := variableChangeCount ctx + 1\<rparr>"
  by (auto simp: SetValue_def split: list.splits option.splits prod.splits if_splits)

lemma SetValue_Some:
  "fst (SetValue P variable newValue ctx h) \<noteq> None \<Longrightarrow>
   fst (snd (SetValue P variable newValue ctx h)) = ctx"
  by (auto simp: SetValue_def split: list.splits option.splits prod.splits if_splits)

lemma SetValue_retracted:
  "retracted (fst (snd (SetValue P variable newValue ctx h))) = retracted ctx"
  by (cases "fst (SetValue P variable newValue ctx h)")
     (simp_all add: SetValue_None SetValue_Some)

lemma SetValue_ObjectStore:
  "ObjectStore (fst (snd (SetValue P variable newValue ctx h))) = ObjectStore ctx"
  by (cases "fst (SetValue P variable newValue ctx h)")
     (simp_all add: SetValue_None SetValue_Some)

lemma Add_retracted: "retracted (snd (Add key obj ctx)) = retracted ctx"
  by (simp add: Add_def Let_def split: sum.splits)

lemma Add_variableChangeCount:
  "variableChangeCount (snd (Add key obj ctx)) = variableChangeCount ctx"
  by (simp add: Add_def Let_def split: sum.splits)

lemma Add_ObjectStore_other:
  "key' \<noteq> key \<Longrightarrow> ObjectStore (snd (Add key obj ctx)) key' = ObjectStore ctx key'"
  by (simp add: Add_def Let_def split: sum.splits)

lemma Add_ObjectStore_bound:
  "ObjectStore ctx key' \<noteq> None \<Longrightarrow> ObjectStore (snd (Add key obj ctx)) key' \<noteq> None"
  by (simp add: Add_def Let_def split: sum.splits)

lemma Add_None_bound:
  "fst (Add key obj ctx) = None \<Longrightarrow> ObjectStore (snd (Add key obj ctx)) key = Some obj"
  by (auto simp: Add_def Let_def split: sum.splits if_splits)

text \<open>What one call does to the retraction list.\<close>

lemma exec_retracted:
  "retracted (fst (exec P c s)) =
     (case c of CallRetract key \<Rightarrow> retracted (fst s) @ [key]
      | CallReset \<Rightarrow> [] | CallResetAllFiledZero \<Rightarrow> []
      | _ \<Rightarrow> retracted (fst s))"
  by (cases s; cases c)
     (simp_all add: ResetVariableChangeCount_def IncrementVariableChangeCount_def Add_retracted
        Retract_def Complete_def Reset_def ExecMethod_ctx GetType_ctx GetValue_ctx
        SetValue_retracted ResetAllFiledZero_def)

lemma exec_keeps_retracted:
  "\<not> clears_retracted c \<Longrightarrow> key \<in> set (retracted (fst s)) \<Longrightarrow>
   key \<in> set (retracted (fst (exec P c s)))"
  by (cases c) (simp_all add: exec_retracted)

lemma run_keeps_retracted:
  "\<forall>c \<in> set cs. \<not> clears_retracted c \<Longrightarrow> key \<in> set (retracted (fst s)) \<Longrightarrow>
   key \<in> set (retracted (fst (run P cs s)))"
  by (induction cs arbitrary: s) (simp_all add: exec_keeps_retracted)

lemma exec_keeps_bound:
  "\<not> clears_retracted c \<Longrightarrow> ObjectStore (fst s) key \<noteq> None \<Longrightarrow>
   ObjectStore (fst (exec P c s)) key \<noteq> None"
  by (cases s; cases c)
     (simp_all add: ResetVariableChangeCount_def IncrementVariableChangeCount_def
        Add_ObjectStore_bound Retract_def Complete_def ExecMethod_ctx GetType_ctx GetValue_ctx
        SetValue_ObjectStore)

lemma run_keeps_bound:
  "\<forall>c \<in> set cs. \<not> clears_retracted c \<Longrightarrow> ObjectStore (fst s) key \<noteq> None \<Longrightarrow>
   ObjectStore (fst (run P cs s)) key \<noteq> None"
  by (induction cs arbitrary: s) (simp_all add: exec_keeps_bound del: not_None_eq)

lemma Add_refused: "fst (Add key obj ctx) \<noteq> None \<Longrightarrow> snd (Add key obj ctx) = ctx"
  by (auto simp: Add_def Let_def split: sum.splits if_splits)

lemma exec_keeps_unbound:
  assumes "\<not> adds key c (fst s)" and "ObjectStore (fst s) key = None"
  shows "ObjectStore (fst (exec P c s)) key = None"
proof (cases s)
  case (Pair ctx h)
  show ?thesis
  proof (cases c)
    case (CallAdd key' obj)
    show ?thesis
    proof (cases "key' = key")
      case True
      with assms(1) Pair CallAdd have "fst (Add key' obj ctx) \<noteq> None"
        by simp
      with assms(2) Pair CallAdd show ?thesis
        by (simp add: Add_refused)
    next
      case False
      with assms(2) Pair CallAdd show ?thesis
        by (simp add: Add_ObjectStore_other)
    qed
  qed (use assms(2) Pair in \<open>simp_all add: ResetVariableChangeCount_def
        IncrementVariableChangeCount_def Retract_def Complete_def Reset_def ExecMethod_ctx
        GetType_ctx GetValue_ctx SetValue_ObjectStore ResetAllFiledZero_def\<close>)
qed

lemma run_keeps_unbound:
  "never_added P key cs s \<Longrightarrow> ObjectStore (fst s) key = None \<Longrightarrow>
   ObjectStore (fst (run P cs s)) key = None"
  by (induction cs arbitrary: s) (simp_all add: exec_keeps_unbound)

text \<open>The three outcomes of the lookup that opens each path operation.\<close>

lemma not_found:
  assumes "ObjectStore ctx (hd (Split path CHR ''.'')) = None"
  shows "GetValue P path ctx h = ((ZeroValue, Some (FactNotFound (hd (Split path CHR ''.'')))), ctx, h)"
    and "SetValue P path v ctx h = (Some (FactNotFound (hd (Split path CHR ''.''))), ctx, h)"
    and "ExecMethod P path args ctx h =
           ((ZeroValue, Some (FactNotFound (hd (Split path CHR ''.'')))), ctx, h)"
    and "GetType P path ctx h = ((None, Some (FactNotFound path)), ctx, h)"
  using assms Split_not_Nil [of path "CHR ''.''"]
  by (auto simp: GetValue_def SetValue_def ExecMethod_def GetType_def split: list.splits)

lemma is_retracted:
  assumes "ObjectStore ctx (hd (Split path CHR ''.'')) \<noteq> None"
    and "hd (Split path CHR ''.'') \<in> set (retracted ctx)"
  shows "GetValue P path ctx h = ((ZeroValue, Some FactRetracted), ctx, h)"
    and "SetValue P path v ctx h = (Some FactRetracted, ctx, h)"
    and "ExecMethod P path args ctx h = ((ZeroValue, Some FactRetracted), ctx, h)"
    and "GetType P path ctx h = ((None, Some FactRetracted), ctx, h)"
  using assms Split_not_Nil [of path "CHR ''.''"]
  by (auto simp: GetValue_def SetValue_def ExecMethod_def GetType_def IsRetracted_set
      split: list.splits)

lemma delegated:
  assumes "ObjectStore ctx (hd (Split path CHR ''.'')) = Some obj"
    and "hd (Split path CHR ''.'') \<notin> set (retracted ctx)"
  shows "GetValue P path ctx h = (traceValue P h obj (tl (Split path CHR ''.'')), ctx, h)"
    and "SetValue P path v ctx h =
           (case traceSetValue P h obj (tl (Split path CHR ''.'')) v of
              (h', None) \<Rightarrow> (None, ctx\<lparr>variableChangeCount := variableChangeCount ctx + 1\<rparr>, h')
            | (h', Some err) \<Rightarrow> (Some err, ctx, h'))"
    and "ExecMethod P path args ctx h =
           (case traceMethod P h obj (tl (Split path CHR ''.'')) args of (r, h') \<Rightarrow> (r, ctx, h'))"
    and "GetType P path ctx h = (traceType P h obj (tl (Split path CHR ''.'')), ctx, h)"
  using assms Split_not_Nil [of path "CHR ''.''"]
  by (auto simp: GetValue_def SetValue_def ExecMethod_def GetType_def IsRetracted_set
      split: list.splits)

subsection \<open>The mutation counter along a sequence of calls\<close>

lemma exec_count:
  "variableChangeCount (fst s) = of_nat n \<Longrightarrow>
   variableChangeCount (fst (exec P c s)) = of_nat (tally P c s n)"
proof (cases s)
  case (Pair ctx h)
  assume n: "variableChangeCount (fst s) = of_nat n"
  show ?thesis
  proof (cases c)
    case (CallSetValue variable newValue)
    with Pair n show ?thesis
      by (cases "fst (SetValue P variable newValue ctx h)")
         (simp_all add: SetValue_None SetValue_Some)
  qed (use Pair n in \<open>simp_all add: ResetVariableChangeCount_def IncrementVariableChangeCount_def
        Add_variableChangeCount Retract_def Complete_def Reset_def ExecMethod_ctx GetType_ctx
        GetValue_ctx ResetAllFiledZero_def\<close>)
qed

lemma run_count:
  "variableChangeCount (fst s) = of_nat n \<Longrightarrow>
   variableChangeCount (fst (run P cs s)) = of_nat (changes P cs s n)"
  by (induction cs arbitrary: s n) (simp_all add: exec_count)

lemma Increment_funpow:
  "variableChangeCount ((IncrementVariableChangeCount ^^ n) ctx) = variableChangeCount ctx + of_nat n"
  by (induction n) (simp_all add: IncrementVariableChangeCount_def)

subsection \<open>The retraction list along a sequence of calls\<close>

lemma run_retract_log: "retracted (fst (run P cs s)) = retract_log cs (retracted (fst s))"
proof (induction cs arbitrary: s)
  case Nil
  show ?case by simp
next
  case (Cons c cs)
  show ?case by (cases c) (simp_all add: Cons.IH exec_retracted)
qed

subsection \<open>The argument checks of traceMethod\<close>

text \<open>
  The two loops unfold one iteration at a time, by \<open>subst\<close>; their equations are
  taken out of the simplifier's rules so that it does not unfold them on its own.
\<close>

declare fixed_loop.simps [simp del] variadic_loop.simps [simp del]

lemma fixed_loop_good:
  assumes "nf = length (fixed_params types variad)" and "nf \<le> length args"
    and "i \<le> nf"
    and "\<forall>j. i \<le> j \<and> j < nf \<longrightarrow>
           tkind (types ! j) = Value_Kind (args ! j) \<or> tkind (types ! j) = Interface"
  shows "\<exists>res. fixed_loop P h name types variad args i iargs = Inr res
           \<and> length res = length iargs
           \<and> (\<forall>j < length iargs. res ! j =
                 (if i \<le> j \<and> j < nf then ValueToInterface P h (args ! j) else iargs ! j))"
  using assms(3,4)
proof (induction "nf - i" arbitrary: i iargs)
  case 0
  then have i: "i = nf" by simp
  have "fixed_loop P h name types variad args i iargs = Inr iargs"
    using assms(1) i
    by (subst fixed_loop.simps) (cases variad; cases "types = []"; auto simp: fixed_params_def)
  then show ?case using i by auto
next
  case (Suc d)
  then have lt: "i < nf" by simp
  with assms(1) have it: "i < length types" and nb: "\<not> (variad \<and> Suc i = length types)"
    by (auto simp: fixed_params_def split: if_splits)
  from lt assms(2) have ia: "\<not> length args \<le> i" by simp
  from Suc.prems(2) lt have ok: "tkind (types ! i) = Value_Kind (args ! i) \<or> tkind (types ! i) = Interface"
    by simp
  let ?iargs = "iargs[i := ValueToInterface P h (args ! i)]"
  have step: "fixed_loop P h name types variad args i iargs
                = fixed_loop P h name types variad args (Suc i) ?iargs"
    using it nb ia ok by (subst fixed_loop.simps) auto
  have "\<exists>res. fixed_loop P h name types variad args (Suc i) ?iargs = Inr res
           \<and> length res = length ?iargs
           \<and> (\<forall>j < length ?iargs. res ! j =
                 (if Suc i \<le> j \<and> j < nf then ValueToInterface P h (args ! j) else ?iargs ! j))"
    using Suc.hyps(2) lt Suc.prems(2) by (intro Suc.hyps(1)) auto
  then obtain res where r: "fixed_loop P h name types variad args (Suc i) ?iargs = Inr res"
    and l: "length res = length iargs"
    and n: "\<forall>j < length iargs. res ! j =
              (if Suc i \<le> j \<and> j < nf then ValueToInterface P h (args ! j) else ?iargs ! j)"
    by auto
  have "\<forall>j < length iargs. res ! j =
          (if i \<le> j \<and> j < nf then ValueToInterface P h (args ! j) else iargs ! j)"
  proof (intro allI impI)
    fix j
    assume j: "j < length iargs"
    show "res ! j = (if i \<le> j \<and> j < nf then ValueToInterface P h (args ! j) else iargs ! j)"
    proof (cases "j = i")
      case True
      with n j lt show ?thesis by simp
    next
      case False
      with n j lt show ?thesis by (cases "i < j") simp_all
    qed
  qed
  with r l step show ?case by simp
qed

lemma fixed_loop_bad:
  assumes "nf = length (fixed_params types variad)"
    and "i \<le> j" and "j < nf" and "j < length args"
    and "tkind (types ! j) \<noteq> Value_Kind (args ! j)" and "tkind (types ! j) \<noteq> Interface"
  shows "\<exists>j' k k'. fixed_loop P h name types variad args i iargs
           = Inl (ArgumentTypeMismatch name j' k k')"
  using assms(2)
proof (induction "j - i" arbitrary: i iargs)
  case 0
  then have i: "i = j" by simp
  from assms(1,3) have it: "j < length types" and nb: "\<not> (variad \<and> Suc j = length types)"
    by (auto simp: fixed_params_def split: if_splits)
  show ?case using i it nb assms(4,5,6) by (subst fixed_loop.simps) auto
next
  case (Suc d)
  then have lt: "i < j" by simp
  with assms(1,3) have it: "i < length types" and nb: "\<not> (variad \<and> Suc i = length types)"
    by (auto simp: fixed_params_def split: if_splits)
  from lt assms(4) have ia: "\<not> length args \<le> i" by simp
  have ih: "\<exists>j' k k'. fixed_loop P h name types variad args (Suc i)
              (iargs[i := ValueToInterface P h (args ! i)]) = Inl (ArgumentTypeMismatch name j' k k')"
    using Suc.hyps(2) lt by (intro Suc.hyps(1)) auto
  show ?case
  proof (cases "tkind (types ! i) \<noteq> Value_Kind (args ! i) \<and> tkind (types ! i) \<noteq> Interface")
    case True
    then show ?thesis using it nb ia by (subst fixed_loop.simps) auto
  next
    case False
    then have "fixed_loop P h name types variad args i iargs
                 = fixed_loop P h name types variad args (Suc i)
                     (iargs[i := ValueToInterface P h (args ! i)])"
      using it nb ia by (subst fixed_loop.simps) auto
    with ih show ?thesis by simp
  qed
qed

lemma variadic_loop_good:
  assumes "i \<le> length args"
    and "\<forall>j. i \<le> j \<and> j < length args \<longrightarrow> Value_Kind (args ! j) = typ"
  shows "\<exists>res. variadic_loop P h name typ args i iargs = Inr res
           \<and> length res = length iargs
           \<and> (\<forall>j < length iargs. res ! j =
                 (if i \<le> j \<and> j < length args then ValueToInterface P h (args ! j) else iargs ! j))"
  using assms
proof (induction "length args - i" arbitrary: i iargs)
  case 0
  then have "variadic_loop P h name typ args i iargs = Inr iargs"
    by (subst variadic_loop.simps) simp
  with 0 show ?case by auto
next
  case (Suc d)
  then have lt: "i < length args" by simp
  let ?iargs = "iargs[i := ValueToInterface P h (args ! i)]"
  from Suc.prems(2) lt have ok: "Value_Kind (args ! i) = typ" by simp
  have step: "variadic_loop P h name typ args i iargs
                = variadic_loop P h name typ args (Suc i) ?iargs"
    using lt ok by (subst variadic_loop.simps) simp
  have "\<exists>res. variadic_loop P h name typ args (Suc i) ?iargs = Inr res
           \<and> length res = length ?iargs
           \<and> (\<forall>j < length ?iargs. res ! j =
                 (if Suc i \<le> j \<and> j < length args then ValueToInterface P h (args ! j) else ?iargs ! j))"
    using Suc.hyps(2) lt Suc.prems(2) by (intro Suc.hyps(1)) auto
  then obtain res where r: "variadic_loop P h name typ args (Suc i) ?iargs = Inr res"
    and l: "length res = length iargs"
    and n: "\<forall>j < length iargs. res ! j =
              (if Suc i \<le> j \<and> j < length args then ValueToInterface P h (args ! j) else ?iargs ! j)"
    by auto
  have "\<forall>j < length iargs. res ! j =
          (if i \<le> j \<and> j < length args then ValueToInterface P h (args ! j) else iargs ! j)"
  proof (intro allI impI)
    fix j
    assume j: "j < length iargs"
    show "res ! j = (if i \<le> j \<and> j < length args then ValueToInterface P h (args ! j) else iargs ! j)"
    proof (cases "j = i")
      case True
      with n j lt show ?thesis by simp
    next
      case False
      with n j lt show ?thesis by (cases "i < j") simp_all
    qed
  qed
  with r l step show ?case by simp
qed

lemma variadic_loop_bad:
  assumes "i \<le> j" and "j < length args" and "Value_Kind (args ! j) \<noteq> typ"
  shows "\<exists>j' k'. variadic_loop P h name typ args i iargs
           = Inl (ArgumentTypeMismatch name j' typ k')"
  using assms(1)
proof (induction "j - i" arbitrary: i iargs)
  case 0
  then show ?case using assms(2,3) by (subst variadic_loop.simps) auto
next
  case (Suc d)
  then have lt: "i < j" by simp
  with assms(2) have ia: "i < length args" by simp
  have ih: "\<exists>j' k'. variadic_loop P h name typ args (Suc i)
              (iargs[i := ValueToInterface P h (args ! i)]) = Inl (ArgumentTypeMismatch name j' typ k')"
    using Suc.hyps(2) lt by (intro Suc.hyps(1)) auto
  show ?case
  proof (cases "Value_Kind (args ! i) = typ")
    case True
    then have "variadic_loop P h name typ args i iargs
                 = variadic_loop P h name typ args (Suc i)
                     (iargs[i := ValueToInterface P h (args ! i)])"
      using ia by (subst variadic_loop.simps) simp
    with ih show ?thesis by simp
  next
    case False
    then show ?thesis using ia by (subst variadic_loop.simps) auto
  qed
qed

lemma fixed_loop_cases:
  assumes "length (fixed_params types variad) \<le> length args"
  shows "(\<exists>j k k'. fixed_loop P h name types variad args 0 iargs
            = Inl (ArgumentTypeMismatch name j k k'))
       \<or> (\<exists>res. fixed_loop P h name types variad args 0 iargs = Inr res)"
proof (cases "\<forall>j. 0 \<le> j \<and> j < length (fixed_params types variad) \<longrightarrow>
                tkind (types ! j) = Value_Kind (args ! j) \<or> tkind (types ! j) = Interface")
  case True
  from fixed_loop_good [OF refl assms _ True, of P h name iargs] show ?thesis
    by auto
next
  case False
  then obtain j where j: "j < length (fixed_params types variad)"
    and b: "tkind (types ! j) \<noteq> Value_Kind (args ! j)" "tkind (types ! j) \<noteq> Interface"
    by auto
  from j assms have "j < length args" by simp
  from fixed_loop_bad [OF refl _ j this b, of 0 P h name iargs] show ?thesis
    by simp
qed

lemma check_args_count:
  "length types \<noteq> length args \<Longrightarrow> \<not> variad \<Longrightarrow>
   check_args P h name types variad args
     = Inl (ArgumentCountMismatch name (length types) (length args))"
  by (simp add: check_args_def)

lemma check_args_fixed_bad:
  assumes "variad \<or> length args = length types"
    and "i < length (fixed_params types variad)" and "i < length args"
    and "tkind (types ! i) \<noteq> Value_Kind (args ! i)" and "tkind (types ! i) \<noteq> Interface"
  shows "\<exists>j k k'. check_args P h name types variad args = Inl (ArgumentTypeMismatch name j k k')"
proof -
  from fixed_loop_bad [OF refl _ assms(2-5), of 0 P h name "replicate (length args) NilIface"]
  obtain j k k' where
    "fixed_loop P h name types variad args 0 (replicate (length args) NilIface)
       = Inl (ArgumentTypeMismatch name j k k')"
    by auto
  with assms(1) show ?thesis
    by (auto simp: check_args_def)
qed

lemma check_args_variadic_bad:
  assumes "variad" and "types \<noteq> []" and "telem (last types) = Some el"
    and "length types - 1 \<le> j" and "j < length args" and "Value_Kind (args ! j) \<noteq> tkind el"
  shows "\<exists>j' k k'. check_args P h name types variad args = Inl (ArgumentTypeMismatch name j' k k')"
proof -
  let ?init = "replicate (length args) NilIface"
  from assms(1,4,5) have nf: "length (fixed_params types variad) \<le> length args"
    by (simp add: fixed_params_def)
  from fixed_loop_cases [OF nf, of P h name ?init] show ?thesis
  proof
    assume "\<exists>j k k'. fixed_loop P h name types variad args 0 ?init
              = Inl (ArgumentTypeMismatch name j k k')"
    with assms(1) show ?thesis by (auto simp: check_args_def)
  next
    assume "\<exists>res. fixed_loop P h name types variad args 0 ?init = Inr res"
    then obtain res where res: "fixed_loop P h name types variad args 0 ?init = Inr res" ..
    from variadic_loop_bad [OF assms(4,5,6), of P h name res]
    obtain j' k' where
      "variadic_loop P h name (tkind el) args (length types - 1) res
         = Inl (ArgumentTypeMismatch name j' (tkind el) k')"
      by auto
    with assms(1,2,3) res show ?thesis
      by (auto simp: check_args_def variadic_args_def Type_Elem_def last_conv_nth)
  qed
qed

lemma check_args_good:
  assumes "variad \<or> length args = length types"
    and "length (fixed_params types variad) \<le> length args"
    and "\<forall>i < length (fixed_params types variad).
           tkind (types ! i) = Value_Kind (args ! i) \<or> tkind (types ! i) = Interface"
    and "variad \<longrightarrow> types \<noteq> [] \<and> (\<exists>el. telem (last types) = Some el
           \<and> (\<forall>j. length types - 1 \<le> j \<and> j < length args \<longrightarrow> Value_Kind (args ! j) = tkind el))"
  shows "check_args P h name types variad args = Inr (map (ValueToInterface P h) args)"
proof -
  let ?init = "replicate (length args) NilIface"
  let ?nf = "length (fixed_params types variad)"
  from assms(3) have "\<forall>j. 0 \<le> j \<and> j < ?nf \<longrightarrow>
      tkind (types ! j) = Value_Kind (args ! j) \<or> tkind (types ! j) = Interface"
    by simp
  from fixed_loop_good [OF refl assms(2) _ this, of P h name ?init]
  obtain res where res: "fixed_loop P h name types variad args 0 ?init = Inr res"
    and len: "length res = length args"
    and nth: "\<forall>j < length args. res ! j =
                (if j < ?nf then ValueToInterface P h (args ! j) else NilIface)"
    by auto
  show ?thesis
  proof (cases variad)
    case False
    with assms(1) have "?nf = length args" by (simp add: fixed_params_def)
    with nth have "\<forall>j < length args. res ! j = ValueToInterface P h (args ! j)" by simp
    with len have "res = map (ValueToInterface P h) args"
      by (intro nth_equalityI) simp_all
    with False res assms(1) show ?thesis
      by (simp add: check_args_def variadic_args_def)
  next
    case True
    with assms(4) obtain el where ne: "types \<noteq> []" and el: "telem (last types) = Some el"
      and ok: "\<forall>j. length types - 1 \<le> j \<and> j < length args \<longrightarrow> Value_Kind (args ! j) = tkind el"
      by auto
    from True have nf: "?nf = length types - 1" by (simp add: fixed_params_def)
    with assms(2) have le: "length types - 1 \<le> length args" by simp
    from variadic_loop_good [OF le ok, of P h name res]
    obtain res' where res': "variadic_loop P h name (tkind el) args (length types - 1) res = Inr res'"
      and len': "length res' = length res"
      and nth': "\<forall>j < length res. res' ! j =
                   (if length types - 1 \<le> j \<and> j < length args
                    then ValueToInterface P h (args ! j) else res ! j)"
      by auto
    have "\<forall>j < length args. res' ! j = ValueToInterface P h (args ! j)"
      using nth nth' len nf by auto
    with len len' have "res' = map (ValueToInterface P h) args"
      by (intro nth_equalityI) simp_all
    with True res res' ne el show ?thesis
      by (simp add: check_args_def variadic_args_def Type_Elem_def last_conv_nth)
  qed
qed

lemma traceMethod_receiver:
  "traceMethod P h obj (segs @ [name]) args =
     (case receiver P h obj segs of
        Inl e \<Rightarrow> ((ZeroValue, Some e), h)
      | Inr recv \<Rightarrow> invoke P h recv name args)"
proof (induction segs arbitrary: obj)
  case Nil
  show ?case by simp
next
  case (Cons f fs)
  obtain g rest where t: "fs @ [name] = g # rest"
    by (cases fs) auto
  have "traceMethod P h obj (f # g # rest) args =
          (case GetAttributeValue P h obj f of
             (objVal, Some err) \<Rightarrow> ((ZeroValue, Some err), h)
           | (objVal, None) \<Rightarrow> traceMethod P h (ValueAsInterface objVal) (g # rest) args)"
    by simp
  with t Cons.IH show ?case
    by (auto split: prod.splits option.splits)
qed

lemma ExecMethod_invoke:
  assumes "Split methodName CHR ''.'' = key # segs @ [name]"
    and "ObjectStore ctx key = Some val" and "\<not> IsRetracted ctx key"
    and "receiver P h val segs = Inr recv"
  shows "ExecMethod P methodName args ctx h =
           (case invoke P h recv name args of (r, h') \<Rightarrow> (r, ctx, h'))"
  using assms by (simp add: ExecMethod_def traceMethod_receiver)

subsection \<open>Unfolding the concrete store\<close>

lemmas AUser_defs =
  Watson_store_def Watson_heap_def Add_def NewDataContext_def AUser_ptr_def AUser_type_def
  IsRetracted_def Retract_def AUser_pkg_def

section \<open>The claims\<close>

subsection \<open>C1: the mutation counter\<close>

text \<open>
  C1, first as stated: \<^verbatim>\<open>HasVariableChange\<close> is true exactly when a successful
  \<^verbatim>\<open>SetValue\<close> or an \<^verbatim>\<open>IncrementVariableChangeCount\<close> has occurred since the last
  \<^verbatim>\<open>ResetVariableChangeCount\<close>. It is false after an increment followed by
  \<^verbatim>\<open>ResetAllFiledZero\<close>, which zeroes the counter too, and after \<open>2 ^ 64\<close>
  increments, where the \<^verbatim>\<open>uint64\<close> counter is back at zero.
\<close>

theorem counter_counterexample:
  "\<not> HasVariableChange (ResetAllFiledZero (IncrementVariableChangeCount NewDataContext)) \<and>
   \<not> HasVariableChange ((IncrementVariableChangeCount ^^ (2 ^ 64)) NewDataContext)"
proof -
  have "(of_nat (2 ^ 64) :: 64 word) = 0"
    by (simp add: word_of_nat_eq_0_iff)
  then show ?thesis
    by (simp add: HasVariableChange_def ResetAllFiledZero_def Increment_funpow NewDataContext_def
          del: of_nat_power of_nat_numeral)
qed


text \<open>
  C1, as the code has it: a successful \<^verbatim>\<open>SetValue\<close> adds one to the 64-bit counter
  (modulo \<open>2 ^ 64\<close>); a \<^verbatim>\<open>SetValue\<close> that returns an error leaves the store as it
  was; \<^verbatim>\<open>GetValue\<close>, \<^verbatim>\<open>GetType\<close> and \<^verbatim>\<open>ExecMethod\<close> leave the store as it
  was. After any sequence of calls on a new store the counter is the number of
  successful \<^verbatim>\<open>SetValue\<close> and \<^verbatim>\<open>IncrementVariableChangeCount\<close> calls since the
  last \<^verbatim>\<open>ResetVariableChangeCount\<close> or \<^verbatim>\<open>ResetAllFiledZero\<close>, modulo \<open>2 ^ 64\<close>;
  so \<^verbatim>\<open>HasVariableChange\<close> is true exactly when that number is not a multiple of
  \<open>2 ^ 64\<close>, and below \<open>2 ^ 64\<close> exactly when it is positive.
\<close>

theorem mutation_counter:
  fixes P :: "'h pkg"
  shows "(fst (SetValue P variable newValue ctx h) = None \<longrightarrow>
            variableChangeCount (fst (snd (SetValue P variable newValue ctx h)))
              = variableChangeCount ctx + 1)
       \<and> (fst (SetValue P variable newValue ctx h) \<noteq> None \<longrightarrow>
            fst (snd (SetValue P variable newValue ctx h)) = ctx)
       \<and> fst (snd (GetValue P variable ctx h)) = ctx
       \<and> fst (snd (GetType P variable ctx h)) = ctx
       \<and> fst (snd (ExecMethod P variable args ctx h)) = ctx
       \<and> variableChangeCount (fst (run P cs (NewDataContext, h0)))
            = of_nat (changes P cs (NewDataContext, h0) 0)
       \<and> HasVariableChange (fst (run P cs (NewDataContext, h0)))
            = (\<not> 2 ^ 64 dvd changes P cs (NewDataContext, h0) 0)
       \<and> (changes P cs (NewDataContext, h0) 0 < 2 ^ 64 \<longrightarrow>
            HasVariableChange (fst (run P cs (NewDataContext, h0)))
              = (0 < changes P cs (NewDataContext, h0) 0))"
proof -
  let ?n = "changes P cs (NewDataContext, h0) 0"
  have c: "variableChangeCount (fst (run P cs (NewDataContext, h0))) = of_nat ?n"
    by (rule run_count) (simp add: NewDataContext_def)
  have d: "HasVariableChange (fst (run P cs (NewDataContext, h0))) = (\<not> 2 ^ 64 dvd ?n)"
    by (simp add: HasVariableChange_def c word_greater_zero_iff word_of_nat_eq_0_iff)
  have e: "?n < 2 ^ 64 \<Longrightarrow> (\<not> 2 ^ 64 dvd ?n) = (0 < ?n)"
    by (cases "?n = 0") (auto dest: dvd_imp_le)
  show ?thesis
    using c d e by (simp add: SetValue_None SetValue_Some GetValue_ctx GetType_ctx ExecMethod_ctx)
qed

theorem mutation_counter_witness:
  "fst (SetValue AUser_pkg ''User.Name'' (Value string_type (StringData ''Holmes''))
          Watson_store Watson_heap) = None
   \<and> variableChangeCount (fst (snd (SetValue AUser_pkg ''User.Name''
          (Value string_type (StringData ''Holmes'')) Watson_store Watson_heap))) = 1
   \<and> fst (SetValue AUser_pkg ''User.Age'' (Value int_type (IntData 7))
          Watson_store Watson_heap) \<noteq> None
   \<and> fst (snd (SetValue AUser_pkg ''User.Age'' (Value int_type (IntData 7))
          Watson_store Watson_heap)) = Watson_store
   \<and> changes AUser_pkg
        [CallAdd ''User'' (AUser_ptr 0),
         CallSetValue ''User.Name'' (Value string_type (StringData ''Holmes'')),
         CallSetValue ''User.Age'' (Value int_type (IntData 7)),
         CallExecMethod ''User.GetName'' []]
        (NewDataContext, Watson_heap) 0 = 1
   \<and> HasVariableChange (fst (run AUser_pkg
        [CallAdd ''User'' (AUser_ptr 0),
         CallSetValue ''User.Name'' (Value string_type (StringData ''Holmes'')),
         CallSetValue ''User.Age'' (Value int_type (IntData 7)),
         CallExecMethod ''User.GetName'' []]
        (NewDataContext, Watson_heap)))"
proof -
  let ?name = "Value string_type (StringData ''Holmes'')"
  let ?age = "Value int_type (IntData 7)"
  let ?cs = "[CallAdd ''User'' (AUser_ptr 0), CallSetValue ''User.Name'' ?name,
              CallSetValue ''User.Age'' ?age, CallExecMethod ''User.GetName'' []]"
  have ok: "fst (SetValue AUser_pkg ''User.Name'' ?name Watson_store Watson_heap) = None"
    by (simp add: SetValue_def Split_def Watson_store_def Watson_heap_def Add_def
          NewDataContext_def AUser_ptr_def AUser_type_def IsRetracted_def AUser_pkg_def
          string_type_def)
  have bad: "fst (SetValue AUser_pkg ''User.Age'' ?age Watson_store Watson_heap) \<noteq> None"
    by (simp add: SetValue_def Split_def Watson_store_def Watson_heap_def Add_def
          NewDataContext_def AUser_ptr_def AUser_type_def IsRetracted_def AUser_pkg_def)
  have n: "changes AUser_pkg ?cs (NewDataContext, Watson_heap) 0 = 1"
    by (simp add: SetValue_def Split_def Watson_heap_def Add_def
          NewDataContext_def AUser_ptr_def AUser_type_def IsRetracted_def AUser_pkg_def
          string_type_def)
  from ok bad n
    mutation_counter [where P = AUser_pkg and variable = "''User.Name''" and newValue = ?name
      and ctx = Watson_store and h = Watson_heap and cs = ?cs and ?h0.0 = Watson_heap]
    mutation_counter [where P = AUser_pkg and variable = "''User.Age''" and newValue = ?age
      and ctx = Watson_store and h = Watson_heap and cs = "[]" and ?h0.0 = Watson_heap]
  show ?thesis
    by (simp add: Watson_store_def Add_def NewDataContext_def AUser_ptr_def AUser_type_def)
qed

subsection \<open>C2: operations on a retracted fact\<close>

text \<open>
  C2, first as stated: every path operation on a name passed to \<^verbatim>\<open>Retract\<close> and not
  since cleared by \<^verbatim>\<open>Reset\<close> returns the "fact is retracted" error, and after
  \<^verbatim>\<open>Reset\<close> the same operation succeeds. Four evaluations on the store of the test:
  \<^verbatim>\<open>SetValue\<close> on the path \<^verbatim>\<open>User\<close> is refused as retracted, and after
  \<^verbatim>\<open>Reset\<close> it still fails, now with "no attribute path specified"; a retracted
  name that is bound to no fact gives "fact not found", not "fact is retracted"; and
  \<^verbatim>\<open>ResetAllFiledZero\<close> clears the retraction as well, so that after adding the fact
  again the read succeeds although \<^verbatim>\<open>Reset\<close> was never called.
\<close>

theorem retracted_fact_counterexample:
  "SetValue AUser_pkg ''User'' (Value string_type (StringData ''Holmes''))
       (Retract ''User'' Watson_store) Watson_heap
     = (Some FactRetracted, Retract ''User'' Watson_store, Watson_heap)
   \<and> SetValue AUser_pkg ''User'' (Value string_type (StringData ''Holmes''))
       (Reset (Retract ''User'' Watson_store)) Watson_heap
     = (Some NoPathSpecified, Reset (Retract ''User'' Watson_store), Watson_heap)
   \<and> fst (GetValue AUser_pkg ''Nobody.Name'' (Retract ''Nobody'' Watson_store) Watson_heap)
     = (ZeroValue, Some (FactNotFound ''Nobody''))
   \<and> fst (GetValue AUser_pkg ''User.Name''
       (snd (Add ''User'' (AUser_ptr 0) (ResetAllFiledZero (Retract ''User'' Watson_store))))
       Watson_heap)
     = (Value string_type (StringData ''Watson''), None)"
  by (simp add: SetValue_def GetValue_def Split_def Watson_store_def Watson_heap_def Add_def
      NewDataContext_def AUser_ptr_def AUser_type_def IsRetracted_def Retract_def Reset_def
      ResetAllFiledZero_def AUser_pkg_def)

text \<open>
  C2, as the code has it: for every name that is bound in the object store, was passed
  to \<^verbatim>\<open>Retract\<close>, and has not been cleared since by \<^verbatim>\<open>Reset\<close> or
  \<^verbatim>\<open>ResetAllFiledZero\<close>, each of \<^verbatim>\<open>GetValue\<close>, \<^verbatim>\<open>GetType\<close>, \<^verbatim>\<open>SetValue\<close>
  and \<^verbatim>\<open>ExecMethod\<close> on a path whose first segment is that name returns the "fact is
  retracted" error and leaves store and heap as they were. \<^verbatim>\<open>Reset\<close> keeps the object
  store, and after it the same operation returns what the path resolver returns for the
  bound object and the rest of the path: it succeeds exactly when the resolution does.
\<close>

theorem retracted_fact:
  assumes "\<forall>c \<in> set cs. \<not> clears_retracted c"
    and "run P cs (Retract key ctx0, h0) = (ctx, h)"
    and "ObjectStore ctx key = Some val"
    and "hd (Split path CHR ''.'') = key"
  shows "GetValue P path ctx h = ((ZeroValue, Some FactRetracted), ctx, h)
       \<and> GetType P path ctx h = ((None, Some FactRetracted), ctx, h)
       \<and> SetValue P path newValue ctx h = (Some FactRetracted, ctx, h)
       \<and> ExecMethod P path args ctx h = ((ZeroValue, Some FactRetracted), ctx, h)
       \<and> ObjectStore (Reset ctx) = ObjectStore ctx
       \<and> GetValue P path (Reset ctx) h =
           (traceValue P h val (tl (Split path CHR ''.'')), Reset ctx, h)
       \<and> GetType P path (Reset ctx) h =
           (traceType P h val (tl (Split path CHR ''.'')), Reset ctx, h)
       \<and> SetValue P path newValue (Reset ctx) h =
           (case traceSetValue P h val (tl (Split path CHR ''.'')) newValue of
              (h', None) \<Rightarrow> (None, IncrementVariableChangeCount (Reset ctx), h')
            | (h', Some err) \<Rightarrow> (Some err, Reset ctx, h'))
       \<and> ExecMethod P path args (Reset ctx) h =
           (case traceMethod P h val (tl (Split path CHR ''.'')) args of
              (r, h') \<Rightarrow> (r, Reset ctx, h'))"
proof -
  have "key \<in> set (retracted (fst (run P cs (Retract key ctx0, h0))))"
    using assms(1) by (rule run_keeps_retracted) (simp add: Retract_def)
  with assms(2,4) have r: "hd (Split path CHR ''.'') \<in> set (retracted ctx)"
    by simp
  from assms(3,4) have b: "ObjectStore ctx (hd (Split path CHR ''.'')) \<noteq> None"
    by simp
  from assms(3,4) have b': "ObjectStore (Reset ctx) (hd (Split path CHR ''.'')) = Some val"
    by (simp add: Reset_def)
  have n': "hd (Split path CHR ''.'') \<notin> set (retracted (Reset ctx))"
    by (simp add: Reset_def)
  show ?thesis
    by (simp add: is_retracted [OF b r] delegated [OF b' n'])
       (simp add: Reset_def IncrementVariableChangeCount_def)
qed

theorem retracted_fact_witness:
  "\<not> clears_retracted (CallGetValue ''User.Name'') \<and> \<not> clears_retracted (CallRetract ''Other'')
   \<and> run AUser_pkg [CallGetValue ''User.Name'', CallRetract ''Other'']
         (Retract ''User'' Watson_store, Watson_heap)
       = (Retract ''Other'' (Retract ''User'' Watson_store), Watson_heap)
   \<and> ObjectStore (Retract ''Other'' (Retract ''User'' Watson_store)) ''User'' = Some (AUser_ptr 0)
   \<and> hd (Split ''User.Name'' CHR ''.'') = ''User''
   \<and> GetValue AUser_pkg ''User.Name'' (Retract ''Other'' (Retract ''User'' Watson_store)) Watson_heap
       = ((ZeroValue, Some FactRetracted), Retract ''Other'' (Retract ''User'' Watson_store),
          Watson_heap)
   \<and> GetValue AUser_pkg ''User.Name''
         (Reset (Retract ''Other'' (Retract ''User'' Watson_store))) Watson_heap
       = ((Value string_type (StringData ''Watson''), None),
          Reset (Retract ''Other'' (Retract ''User'' Watson_store)), Watson_heap)"
proof -
  let ?cs = "[CallGetValue ''User.Name'', CallRetract ''Other'']"
  let ?ctx = "Retract ''Other'' (Retract ''User'' Watson_store)"
  have a: "\<forall>c \<in> set ?cs. \<not> clears_retracted c"
    by simp
  have r: "run AUser_pkg ?cs (Retract ''User'' Watson_store, Watson_heap) = (?ctx, Watson_heap)"
    by (simp add: GetValue_ctx)
  have b: "ObjectStore ?ctx ''User'' = Some (AUser_ptr 0)"
    by (simp add: AUser_defs)
  have k: "hd (Split ''User.Name'' CHR ''.'') = ''User''"
    by (simp add: Split_def)
  have t: "traceValue AUser_pkg Watson_heap (AUser_ptr 0) (tl (Split ''User.Name'' CHR ''.''))
             = (Value string_type (StringData ''Watson''), None)"
    by (simp add: Split_def AUser_defs)
  from a r b k t retracted_fact [OF a r b k] show ?thesis
    by simp
qed

subsection \<open>C3: operations on a fact that was never added\<close>

text \<open>
  C3: after any sequence of calls on a new store in which no \<^verbatim>\<open>Add\<close> of \<open>key\<close>
  was accepted, each of \<^verbatim>\<open>GetValue\<close>, \<^verbatim>\<open>SetValue\<close>, \<^verbatim>\<open>ExecMethod\<close> and
  \<^verbatim>\<open>GetType\<close> on a path whose first segment is \<open>key\<close> returns the "fact not
  found" error and leaves the store (object store, retraction list, counter, completion
  flag) and the heap as they were, whether the name is retracted or not. \<^verbatim>\<open>GetType\<close>
  puts the whole path in its message, the others the first segment.
\<close>

theorem fact_not_found:
  assumes "never_added P key cs (NewDataContext, h0)"
    and "run P cs (NewDataContext, h0) = (ctx, h)"
    and "hd (Split path CHR ''.'') = key"
  shows "GetValue P path ctx h = ((ZeroValue, Some (FactNotFound key)), ctx, h)
       \<and> SetValue P path newValue ctx h = (Some (FactNotFound key), ctx, h)
       \<and> ExecMethod P path args ctx h = ((ZeroValue, Some (FactNotFound key)), ctx, h)
       \<and> GetType P path ctx h = ((None, Some (FactNotFound path)), ctx, h)"
proof -
  have "ObjectStore (fst (run P cs (NewDataContext, h0))) key = None"
    using assms(1) by (rule run_keeps_unbound) (simp add: NewDataContext_def)
  with assms(2,3) have nf: "ObjectStore ctx (hd (Split path CHR ''.'')) = None"
    by simp
  show ?thesis
    using assms(3) by (simp add: not_found [OF nf])
qed

theorem fact_not_found_witness:
  "never_added AUser_pkg ''Nobody''
     [CallAdd ''User'' (AUser_ptr 0), CallAdd ''Nobody'' (Iface string_type (StringData ''x'')),
      CallRetract ''Nobody'']
     (NewDataContext, Watson_heap)
   \<and> run AUser_pkg
     [CallAdd ''User'' (AUser_ptr 0), CallAdd ''Nobody'' (Iface string_type (StringData ''x'')),
      CallRetract ''Nobody'']
     (NewDataContext, Watson_heap) = (Retract ''Nobody'' Watson_store, Watson_heap)
   \<and> hd (Split ''Nobody.Name'' CHR ''.'') = ''Nobody''
   \<and> GetValue AUser_pkg ''Nobody.Name'' (Retract ''Nobody'' Watson_store) Watson_heap
       = ((ZeroValue, Some (FactNotFound ''Nobody'')), Retract ''Nobody'' Watson_store, Watson_heap)
   \<and> SetValue AUser_pkg ''Nobody.Name'' (Value string_type (StringData ''x''))
        (Retract ''Nobody'' Watson_store) Watson_heap
       = (Some (FactNotFound ''Nobody''), Retract ''Nobody'' Watson_store, Watson_heap)
   \<and> ExecMethod AUser_pkg ''Nobody.Name'' [] (Retract ''Nobody'' Watson_store) Watson_heap
       = ((ZeroValue, Some (FactNotFound ''Nobody'')), Retract ''Nobody'' Watson_store, Watson_heap)
   \<and> GetType AUser_pkg ''Nobody.Name'' (Retract ''Nobody'' Watson_store) Watson_heap
       = ((None, Some (FactNotFound ''Nobody.Name'')), Retract ''Nobody'' Watson_store, Watson_heap)"
proof -
  let ?cs = "[CallAdd ''User'' (AUser_ptr 0),
              CallAdd ''Nobody'' (Iface string_type (StringData ''x'')), CallRetract ''Nobody'']"
  have a: "never_added AUser_pkg ''Nobody'' ?cs (NewDataContext, Watson_heap)"
    by (simp add: Add_def string_type_def)
  have r: "run AUser_pkg ?cs (NewDataContext, Watson_heap)
             = (Retract ''Nobody'' Watson_store, Watson_heap)"
    by (simp add: Watson_store_def Add_def string_type_def AUser_ptr_def AUser_type_def)
  have k: "hd (Split ''Nobody.Name'' CHR ''.'') = ''Nobody''"
    by (simp add: Split_def)
  from a r k fact_not_found [OF a r k, of "Value string_type (StringData ''x'')" "[]"]
  show ?thesis by simp
qed

subsection \<open>C4: what Add accepts\<close>

text \<open>
  C4: \<^verbatim>\<open>Add\<close> returns the "you can only insert a pointer to struct" error exactly
  when the object is not a pointer to a struct, and then the store is as before;
  otherwise it returns no error and binds the key to the object, in place of whatever
  the key was bound to. A nil \<^verbatim>\<open>*T\<close> points to no struct and is refused.
\<close>

theorem Add_pointer_to_struct:
  assumes "wf_iface obj"
  shows "Add key obj ctx =
           (if pointer_to_struct obj
            then (None, ctx\<lparr>ObjectStore := (ObjectStore ctx)(key \<mapsto> obj)\<rparr>)
            else (Some (InvalidFactKind (Value_Kind (ValueOf obj))), ctx))"
proof (cases obj)
  case NilIface
  then show ?thesis by (simp add: Add_def)
next
  case (Iface t d)
  obtain n k e where t: "t = RType n k e" by (cases t)
  show ?thesis
  proof (cases "k = Ptr")
    case False
    with Iface t show ?thesis by (cases e; cases d; simp add: Add_def)
  next
    case True
    with assms Iface t obtain el where e: "e = Some el" by (cases e) auto
    from True Iface t e show ?thesis by (cases d; simp add: Add_def)
  qed
qed

theorem Add_pointer_to_struct_witness:
  "wf_iface (AUser_ptr 7)
   \<and> Add ''User'' (AUser_ptr 7) Watson_store
       = (None, Watson_store\<lparr>ObjectStore := (ObjectStore Watson_store)(''User'' \<mapsto> AUser_ptr 7)\<rparr>)
   \<and> wf_iface (Iface string_type (StringData ''Watson''))
   \<and> Add ''User'' (Iface string_type (StringData ''Watson'')) Watson_store
       = (Some (InvalidFactKind String), Watson_store)"
  using Add_pointer_to_struct [of "AUser_ptr 7" "''User''" Watson_store]
    Add_pointer_to_struct [of "Iface string_type (StringData ''Watson'')" "''User''" Watson_store]
  by (simp add: AUser_ptr_def AUser_type_def string_type_def)

subsection \<open>C5: argument count and argument kinds\<close>

text \<open>
  C5: \<^verbatim>\<open>ExecMethod\<close> on a path that ends in a method \<open>name\<close> of the receiver
  \<open>recv\<close>, whose parameter types are \<open>types\<close> and whose variadic flag is
  \<open>variad\<close>.
  \<^item> An argument count different from the number of parameters of a method that is not
    variadic gives the "invalid argument count" error.
  \<^item> A fixed parameter whose kind differs from its argument's kind and is not Interface
    gives an "invalid argument types" error.
  \<^item> For a variadic method, a trailing argument whose kind differs from the kind of the
    variadic element gives an "invalid argument types" error.
  \<^item> When every fixed parameter has its argument's kind or kind Interface, and every
    trailing argument the kind of the variadic element, the method is invoked, with each
    argument converted by \<^verbatim>\<open>pkg.ValueToInterface\<close>.
  In the three error cases the method is not invoked: store and heap are as before.
\<close>

theorem argument_checks:
  assumes "Split methodName CHR ''.'' = key # segs @ [name]"
    and "ObjectStore ctx key = Some val" and "\<not> IsRetracted ctx key"
    and "receiver P h val segs = Inr recv"
    and "GetFunctionParameterTypes P h recv name = ((types, variad), None)"
  shows "(length args \<noteq> length types \<and> \<not> variad \<longrightarrow>
            ExecMethod P methodName args ctx h =
              ((ZeroValue, Some (ArgumentCountMismatch name (length types) (length args))), ctx, h))
       \<and> ((variad \<or> length args = length types)
            \<and> (\<exists>i < length (fixed_params types variad). i < length args
                  \<and> tkind (types ! i) \<noteq> Value_Kind (args ! i) \<and> tkind (types ! i) \<noteq> Interface) \<longrightarrow>
            (\<exists>i k k'. ExecMethod P methodName args ctx h =
               ((ZeroValue, Some (ArgumentTypeMismatch name i k k')), ctx, h)))
       \<and> (variad \<and> types \<noteq> []
            \<and> (\<exists>el. telem (last types) = Some el
                  \<and> (\<exists>j. length types - 1 \<le> j \<and> j < length args
                        \<and> Value_Kind (args ! j) \<noteq> tkind el)) \<longrightarrow>
            (\<exists>i k k'. ExecMethod P methodName args ctx h =
               ((ZeroValue, Some (ArgumentTypeMismatch name i k k')), ctx, h)))
       \<and> ((variad \<or> length args = length types)
            \<and> length (fixed_params types variad) \<le> length args
            \<and> (\<forall>i < length (fixed_params types variad).
                  tkind (types ! i) = Value_Kind (args ! i) \<or> tkind (types ! i) = Interface)
            \<and> (variad \<longrightarrow> types \<noteq> [] \<and> (\<exists>el. telem (last types) = Some el
                  \<and> (\<forall>j. length types - 1 \<le> j \<and> j < length args \<longrightarrow>
                        Value_Kind (args ! j) = tkind el))) \<longrightarrow>
            ExecMethod P methodName args ctx h =
              (case InvokeFunction P h recv name (map (ValueToInterface P h) args) of
                 (h', rets, Some err) \<Rightarrow> ((ZeroValue, Some err), ctx, h')
               | (h', rets, None) \<Rightarrow> (return_values name rets, ctx, h')))"
proof -
  note ex = ExecMethod_invoke [OF assms(1-4), of args]
  have count: "ExecMethod P methodName args ctx h =
      ((ZeroValue, Some (ArgumentCountMismatch name (length types) (length args))), ctx, h)"
    if "length args \<noteq> length types" "\<not> variad"
    using that assms(5) by (simp add: ex invoke_def check_args_count)
  have fixed: "\<exists>i k k'. ExecMethod P methodName args ctx h =
      ((ZeroValue, Some (ArgumentTypeMismatch name i k k')), ctx, h)"
    if "variad \<or> length args = length types"
      and "\<exists>i < length (fixed_params types variad). i < length args
             \<and> tkind (types ! i) \<noteq> Value_Kind (args ! i) \<and> tkind (types ! i) \<noteq> Interface"
  proof -
    from that(2) obtain i where "i < length (fixed_params types variad)" "i < length args"
      "tkind (types ! i) \<noteq> Value_Kind (args ! i)" "tkind (types ! i) \<noteq> Interface"
      by auto
    from check_args_fixed_bad [OF that(1) this, of P h name]
    obtain j k k' where
      "check_args P h name types variad args = Inl (ArgumentTypeMismatch name j k k')"
      by auto
    with assms(5) show ?thesis by (simp add: ex invoke_def)
  qed
  have trailing: "\<exists>i k k'. ExecMethod P methodName args ctx h =
      ((ZeroValue, Some (ArgumentTypeMismatch name i k k')), ctx, h)"
    if "variad" "types \<noteq> []"
      and "\<exists>el. telem (last types) = Some el
             \<and> (\<exists>j. length types - 1 \<le> j \<and> j < length args \<and> Value_Kind (args ! j) \<noteq> tkind el)"
  proof -
    from that(3) obtain el j where "telem (last types) = Some el" "length types - 1 \<le> j"
      "j < length args" "Value_Kind (args ! j) \<noteq> tkind el"
      by auto
    from check_args_variadic_bad [OF that(1,2) this, of P h name]
    obtain j' k k' where
      "check_args P h name types variad args = Inl (ArgumentTypeMismatch name j' k k')"
      by auto
    with assms(5) show ?thesis by (simp add: ex invoke_def)
  qed
  have good: "ExecMethod P methodName args ctx h =
      (case InvokeFunction P h recv name (map (ValueToInterface P h) args) of
         (h', rets, Some err) \<Rightarrow> ((ZeroValue, Some err), ctx, h')
       | (h', rets, None) \<Rightarrow> (return_values name rets, ctx, h'))"
    if "variad \<or> length args = length types"
      and "length (fixed_params types variad) \<le> length args"
      and "\<forall>i < length (fixed_params types variad).
             tkind (types ! i) = Value_Kind (args ! i) \<or> tkind (types ! i) = Interface"
      and "variad \<longrightarrow> types \<noteq> [] \<and> (\<exists>el. telem (last types) = Some el
             \<and> (\<forall>j. length types - 1 \<le> j \<and> j < length args \<longrightarrow> Value_Kind (args ! j) = tkind el))"
    using assms(5) check_args_good [OF that, of P h name]
    by (simp add: ex invoke_def split: prod.splits option.splits)
  from count fixed trailing good show ?thesis
    by blast
qed

theorem argument_checks_witness:
  "ExecMethod AUser_pkg ''User.SetName'' [] Watson_store Watson_heap
     = ((ZeroValue, Some (ArgumentCountMismatch ''SetName'' 1 0)), Watson_store, Watson_heap)
   \<and> (\<exists>i k k'. ExecMethod AUser_pkg ''User.SetName'' [Value int_type (IntData 7)]
                  Watson_store Watson_heap
         = ((ZeroValue, Some (ArgumentTypeMismatch ''SetName'' i k k')), Watson_store, Watson_heap))
   \<and> (\<exists>i k k'. ExecMethod AUser_pkg ''User.Rate''
                  [Value string_type (StringData ''a''), Value int_type (IntData 7),
                   Value string_type (StringData ''b'')]
                  Watson_store Watson_heap
         = ((ZeroValue, Some (ArgumentTypeMismatch ''Rate'' i k k')), Watson_store, Watson_heap))
   \<and> ExecMethod AUser_pkg ''User.Rate''
         [Value string_type (StringData ''a''), Value int_type (IntData 7),
          Value int_type (IntData 8)]
         Watson_store Watson_heap
       = ((Value int_type (IntData 3), None), Watson_store, Watson_heap)"
proof -
  let ?a = "Value string_type (StringData ''a'')" and ?b = "Value string_type (StringData ''b'')"
  let ?seven = "Value int_type (IntData 7)" and ?eight = "Value int_type (IntData 8)"
  let ?rate = "[string_type, RType ''[]int'' Slice (Some int_type)]"
  have st: "ObjectStore Watson_store ''User'' = Some (AUser_ptr 0)"
    and nr: "\<not> IsRetracted Watson_store ''User''"
    and rc: "receiver AUser_pkg Watson_heap (AUser_ptr 0) [] = Inr (AUser_ptr 0)"
    by (simp_all add: AUser_defs)
  have s1: "Split ''User.SetName'' CHR ''.'' = ''User'' # [] @ [''SetName'']"
    and s2: "Split ''User.Rate'' CHR ''.'' = ''User'' # [] @ [''Rate'']"
    by (simp_all add: Split_def)
  have t1: "GetFunctionParameterTypes AUser_pkg Watson_heap (AUser_ptr 0) ''SetName''
              = (([string_type], False), None)"
    and t2: "GetFunctionParameterTypes AUser_pkg Watson_heap (AUser_ptr 0) ''Rate''
              = ((?rate, True), None)"
    by (simp_all add: AUser_defs)
  note set_name = argument_checks [OF s1 st nr rc t1]
  note rate = argument_checks [OF s2 st nr rc t2]
  have count: "ExecMethod AUser_pkg ''User.SetName'' [] Watson_store Watson_heap
     = ((ZeroValue, Some (ArgumentCountMismatch ''SetName'' 1 0)), Watson_store, Watson_heap)"
    using set_name [of "[]"] by simp
  have "\<exists>i < length (fixed_params [string_type] False). i < length [?seven]
          \<and> tkind ([string_type] ! i) \<noteq> Value_Kind ([?seven] ! i)
          \<and> tkind ([string_type] ! i) \<noteq> Interface"
    by (intro exI [of _ 0]) (simp add: fixed_params_def string_type_def int_type_def)
  with set_name [of "[?seven]"]
  have fixed: "\<exists>i k k'. ExecMethod AUser_pkg ''User.SetName'' [?seven] Watson_store Watson_heap
         = ((ZeroValue, Some (ArgumentTypeMismatch ''SetName'' i k k')), Watson_store, Watson_heap)"
    by simp
  have "\<exists>el. telem (last ?rate) = Some el
          \<and> (\<exists>j. length ?rate - 1 \<le> j \<and> j < length [?a, ?seven, ?b]
                \<and> Value_Kind ([?a, ?seven, ?b] ! j) \<noteq> tkind el)"
    by (intro exI [of _ int_type] conjI exI [of _ 2]) (simp_all add: string_type_def int_type_def)
  with rate [of "[?a, ?seven, ?b]"]
  have trailing: "\<exists>i k k'. ExecMethod AUser_pkg ''User.Rate'' [?a, ?seven, ?b]
                    Watson_store Watson_heap
         = ((ZeroValue, Some (ArgumentTypeMismatch ''Rate'' i k k')), Watson_store, Watson_heap)"
    by simp
  have "\<forall>j. length ?rate - 1 \<le> j \<and> j < length [?a, ?seven, ?eight] \<longrightarrow>
          Value_Kind ([?a, ?seven, ?eight] ! j) = tkind int_type"
    by (auto simp: less_Suc_eq int_type_def numeral_3_eq_3)
  with rate [of "[?a, ?seven, ?eight]"]
  have good: "ExecMethod AUser_pkg ''User.Rate'' [?a, ?seven, ?eight] Watson_store Watson_heap
       = ((Value int_type (IntData 3), None), Watson_store, Watson_heap)"
    by (simp add: fixed_params_def string_type_def return_values_def AUser_defs)
  from count fixed trailing good show ?thesis
    by blast
qed

subsection \<open>C6: the number of return values\<close>

text \<open>
  C6: when the arguments pass the checks and the invocation returns no error,
  \<^verbatim>\<open>ExecMethod\<close> returns a nil value and no error for a method without return value,
  the returned value and no error for one return value, and the "multiple return value"
  error (next to the first returned value) for more than one.
\<close>

theorem return_count:
  assumes "Split methodName CHR ''.'' = key # segs @ [name]"
    and "ObjectStore ctx key = Some val" and "\<not> IsRetracted ctx key"
    and "receiver P h val segs = Inr recv"
    and "GetFunctionParameterTypes P h recv name = ((types, variad), None)"
    and "check_args P h name types variad args = Inr iargs"
    and "InvokeFunction P h recv name iargs = (h', rets, None)"
  shows "ExecMethod P methodName args ctx h =
           ((case rets of
               [] \<Rightarrow> (ZeroValue, None)
             | [r] \<Rightarrow> (ValueOf r, None)
             | r # r' # rs \<Rightarrow> (ValueOf r, Some (UnsupportedMultiReturn name))), ctx, h')"
  using assms(5-7)
  by (simp add: ExecMethod_invoke [OF assms(1-4)] invoke_def return_values_def
      split: list.splits)

theorem return_count_witness:
  "check_args AUser_pkg Watson_heap ''GetName'' [] False [] = Inr []
   \<and> InvokeFunction AUser_pkg Watson_heap (AUser_ptr 0) ''GetName'' []
       = (Watson_heap, [Iface string_type (StringData ''Watson'')], None)
   \<and> ExecMethod AUser_pkg ''User.GetName'' [] Watson_store Watson_heap
       = ((Value string_type (StringData ''Watson''), None), Watson_store, Watson_heap)
   \<and> ExecMethod AUser_pkg ''User.SetName'' [Value string_type (StringData ''Holmes'')]
         Watson_store Watson_heap
       = ((ZeroValue, None), Watson_store, Watson_heap(0 \<mapsto> ''Holmes''))
   \<and> ExecMethod AUser_pkg ''User.Names'' [] Watson_store Watson_heap
       = ((Value string_type (StringData ''Watson''), Some (UnsupportedMultiReturn ''Names'')),
          Watson_store, Watson_heap)"
proof -
  let ?holmes = "Value string_type (StringData ''Holmes'')"
  have st: "ObjectStore Watson_store ''User'' = Some (AUser_ptr 0)"
    and nr: "\<not> IsRetracted Watson_store ''User''"
    and rc: "receiver AUser_pkg Watson_heap (AUser_ptr 0) [] = Inr (AUser_ptr 0)"
    by (simp_all add: AUser_defs)
  have s1: "Split ''User.GetName'' CHR ''.'' = ''User'' # [] @ [''GetName'']"
    and s2: "Split ''User.SetName'' CHR ''.'' = ''User'' # [] @ [''SetName'']"
    and s3: "Split ''User.Names'' CHR ''.'' = ''User'' # [] @ [''Names'']"
    by (simp_all add: Split_def)
  have t1: "GetFunctionParameterTypes AUser_pkg Watson_heap (AUser_ptr 0) ''GetName''
              = (([], False), None)"
    and t2: "GetFunctionParameterTypes AUser_pkg Watson_heap (AUser_ptr 0) ''SetName''
              = (([string_type], False), None)"
    and t3: "GetFunctionParameterTypes AUser_pkg Watson_heap (AUser_ptr 0) ''Names''
              = (([], False), None)"
    by (simp_all add: AUser_defs)
  have c1: "check_args AUser_pkg Watson_heap ''GetName'' [] False [] = Inr []"
    and c2: "check_args AUser_pkg Watson_heap ''SetName'' [string_type] False [?holmes]
              = Inr [Iface string_type (StringData ''Holmes'')]"
    and c3: "check_args AUser_pkg Watson_heap ''Names'' [] False [] = Inr []"
    by (simp_all add: check_args_def fixed_loop.simps variadic_args_def string_type_def
          AUser_pkg_def)
  have i1: "InvokeFunction AUser_pkg Watson_heap (AUser_ptr 0) ''GetName'' []
              = (Watson_heap, [Iface string_type (StringData ''Watson'')], None)"
    and i2: "InvokeFunction AUser_pkg Watson_heap (AUser_ptr 0) ''SetName''
               [Iface string_type (StringData ''Holmes'')]
              = (Watson_heap(0 \<mapsto> ''Holmes''), [], None)"
    and i3: "InvokeFunction AUser_pkg Watson_heap (AUser_ptr 0) ''Names'' []
              = (Watson_heap, [Iface string_type (StringData ''Watson''),
                               Iface string_type (StringData ''Watson'')], None)"
    by (simp_all add: AUser_defs)
  from c1 i1 return_count [OF s1 st nr rc t1 c1 i1] return_count [OF s2 st nr rc t2 c2 i2]
    return_count [OF s3 st nr rc t3 c3 i3]
  show ?thesis
    by simp
qed

subsection \<open>C7: a path that is only a fact name\<close>

text \<open>
  C7: for a path without a dot that names a fact of the store which is not retracted,
  \<^verbatim>\<open>GetValue\<close> returns \<^verbatim>\<open>reflect.ValueOf\<close> of the bound object and
  \<^verbatim>\<open>GetType\<close> its \<^verbatim>\<open>reflect.TypeOf\<close>, both without error, while \<^verbatim>\<open>SetValue\<close>
  and \<^verbatim>\<open>ExecMethod\<close> fail with "no attribute path specified" and "no function path
  specified"; none of the four changes store or heap.
\<close>

theorem bare_fact_name:
  assumes "CHR ''.'' \<notin> set name"
    and "ObjectStore ctx name = Some obj"
    and "\<not> IsRetracted ctx name"
  shows "GetValue P name ctx h = ((ValueOf obj, None), ctx, h)
       \<and> GetType P name ctx h = ((TypeOf obj, None), ctx, h)
       \<and> SetValue P name newValue ctx h = (Some NoPathSpecified, ctx, h)
       \<and> ExecMethod P name args ctx h = ((ZeroValue, Some NoPathSpecified), ctx, h)"
  using assms
  by (simp add: Split_no_sep GetValue_def GetType_def SetValue_def ExecMethod_def)

theorem bare_fact_name_witness:
  "CHR ''.'' \<notin> set ''User''
   \<and> ObjectStore Watson_store ''User'' = Some (AUser_ptr 0)
   \<and> \<not> IsRetracted Watson_store ''User''
   \<and> GetValue AUser_pkg ''User'' Watson_store Watson_heap
       = ((Value (RType ''*AUser'' Ptr (Some AUser_type)) (Addr 0), None), Watson_store, Watson_heap)
   \<and> GetType AUser_pkg ''User'' Watson_store Watson_heap
       = ((Some (RType ''*AUser'' Ptr (Some AUser_type)), None), Watson_store, Watson_heap)
   \<and> SetValue AUser_pkg ''User'' (Value string_type (StringData ''x'')) Watson_store Watson_heap
       = (Some NoPathSpecified, Watson_store, Watson_heap)
   \<and> ExecMethod AUser_pkg ''User'' [] Watson_store Watson_heap
       = ((ZeroValue, Some NoPathSpecified), Watson_store, Watson_heap)"
proof -
  have a: "CHR ''.'' \<notin> set ''User''"
    by simp
  have b: "ObjectStore Watson_store ''User'' = Some (AUser_ptr 0)"
    by (simp add: Watson_store_def Add_def AUser_ptr_def AUser_type_def)
  have c: "\<not> IsRetracted Watson_store ''User''"
    by (simp add: Watson_store_def Add_def AUser_ptr_def AUser_type_def IsRetracted_def
          NewDataContext_def)
  from a b c bare_fact_name [OF a b c, of AUser_pkg Watson_heap
      "Value string_type (StringData ''x'')" "[]"]
  show ?thesis by (simp add: AUser_ptr_def)
qed

subsection \<open>C8: the list that Retracted returns\<close>

text \<open>
  C8, first as stated: the list that \<^verbatim>\<open>Retracted\<close> returns holds each name at most
  once. \<^verbatim>\<open>Retract\<close> appends without looking, so two calls with one name give a list
  that holds it twice.
\<close>

theorem retracted_list_counterexample:
  "\<not> distinct (Retracted (Retract ''User'' (Retract ''User'' NewDataContext)))"
  by (simp add: Retracted_def Retract_def NewDataContext_def)

text \<open>
  C8, as the code has it: after any sequence of calls on a new store, \<^verbatim>\<open>Retracted\<close>
  returns the names passed to \<^verbatim>\<open>Retract\<close> since the last \<^verbatim>\<open>Reset\<close> or
  \<^verbatim>\<open>ResetAllFiledZero\<close>, in call order and with one entry for each call, and
  \<^verbatim>\<open>IsRetracted\<close> holds of exactly the names in that list. As a set the list is the
  retraction set; as a list it repeats a name that was retracted more than once.
\<close>

theorem retracted_list:
  "Retracted (fst (run P cs (NewDataContext, h0))) = retract_log cs []
   \<and> IsRetracted (fst (run P cs (NewDataContext, h0))) key = (key \<in> set (retract_log cs []))"
  by (simp add: Retracted_def IsRetracted_set run_retract_log NewDataContext_def)

theorem retracted_list_witness:
  "Retracted (fst (run AUser_pkg
      [CallRetract ''User'', CallReset, CallRetract ''Other'', CallRetract ''User'',
       CallAdd ''User'' (AUser_ptr 0), CallRetract ''User'']
      (NewDataContext, Watson_heap))) = [''Other'', ''User'', ''User'']
   \<and> IsRetracted (fst (run AUser_pkg
      [CallRetract ''User'', CallReset, CallRetract ''Other'', CallRetract ''User'',
       CallAdd ''User'' (AUser_ptr 0), CallRetract ''User'']
      (NewDataContext, Watson_heap))) ''User''"
  using retracted_list [of AUser_pkg
      "[CallRetract ''User'', CallReset, CallRetract ''Other'', CallRetract ''User'',
        CallAdd ''User'' (AUser_ptr 0), CallRetract ''User'']" Watson_heap "''User''"]
  by simp

subsection \<open>C9: a refused Add changes nothing\<close>

text \<open>
  C9: whenever \<^verbatim>\<open>Add\<close> returns an error the store it returns is the store it was
  given: object store, retraction list, counter and completion flag.
\<close>

theorem Add_error_leaves_store:
  "fst (Add key obj ctx) \<noteq> None \<Longrightarrow> snd (Add key obj ctx) = ctx"
  by (auto simp: Add_def Let_def split: sum.splits if_splits)

theorem Add_error_leaves_store_witness:
  "fst (Add ''User'' (Iface string_type (StringData ''Watson'')) Watson_store) \<noteq> None \<and>
   snd (Add ''User'' (Iface string_type (StringData ''Watson'')) Watson_store) = Watson_store"
proof -
  have e: "fst (Add ''User'' (Iface string_type (StringData ''Watson'')) Watson_store) \<noteq> None"
    by (simp add: Add_def string_type_def)
  from e Add_error_leaves_store [OF e] show ?thesis by simp
qed

subsection \<open>C10: retracting a name before its fact is added\<close>

text \<open>
  C10, first as stated: after \<^verbatim>\<open>Retract\<close> of a name, a fact bound to it later fails
  every path operation with "fact is retracted" until \<^verbatim>\<open>Reset\<close> is called.
  \<^verbatim>\<open>ResetAllFiledZero\<close> empties the retraction list as well: after it, the fact is
  added and read with success, and \<^verbatim>\<open>Reset\<close> was never called.
\<close>

theorem retract_before_add_counterexample:
  "fst (GetValue AUser_pkg ''User.Name''
     (fst (run AUser_pkg [CallResetAllFiledZero, CallAdd ''User'' (AUser_ptr 0)]
        (Retract ''User'' NewDataContext, Watson_heap))) Watson_heap)
   = (Value string_type (StringData ''Watson''), None)"
  by (simp add: GetValue_def Split_def Watson_heap_def Add_def
      NewDataContext_def AUser_ptr_def AUser_type_def IsRetracted_def Retract_def
      ResetAllFiledZero_def AUser_pkg_def)

text \<open>
  C10, as the code has it: \<^verbatim>\<open>Retract\<close> records every name, bound or not, and
  \<^verbatim>\<open>IsRetracted\<close> is true of it at once. If after further calls \<^verbatim>\<open>Add\<close> binds a
  fact to the name, then after any further calls each of the four path operations on a
  path whose first segment is the name fails with "fact is retracted", store and heap
  unchanged, as long as neither \<^verbatim>\<open>Reset\<close> nor \<^verbatim>\<open>ResetAllFiledZero\<close> is among the
  calls.
\<close>

theorem retract_before_add:
  assumes "\<forall>c \<in> set cs1. \<not> clears_retracted c" and "\<forall>c \<in> set cs2. \<not> clears_retracted c"
    and "run P cs1 (Retract key ctx0, h0) = (ctx1, h1)"
    and "fst (Add key obj ctx1) = None"
    and "run P cs2 (snd (Add key obj ctx1), h1) = (ctx, h)"
    and "hd (Split path CHR ''.'') = key"
  shows "IsRetracted (Retract key ctx0) key
       \<and> GetValue P path ctx h = ((ZeroValue, Some FactRetracted), ctx, h)
       \<and> GetType P path ctx h = ((None, Some FactRetracted), ctx, h)
       \<and> SetValue P path newValue ctx h = (Some FactRetracted, ctx, h)
       \<and> ExecMethod P path args ctx h = ((ZeroValue, Some FactRetracted), ctx, h)"
proof -
  have "key \<in> set (retracted (fst (run P cs1 (Retract key ctx0, h0))))"
    using assms(1) by (rule run_keeps_retracted) (simp add: Retract_def)
  with assms(3) have "key \<in> set (retracted (fst (snd (Add key obj ctx1), h1)))"
    by (simp add: Add_retracted)
  with assms(2) have "key \<in> set (retracted (fst (run P cs2 (snd (Add key obj ctx1), h1))))"
    by (rule run_keeps_retracted)
  with assms(5,6) have r: "hd (Split path CHR ''.'') \<in> set (retracted ctx)"
    by simp
  from assms(4) have "ObjectStore (fst (snd (Add key obj ctx1), h1)) key \<noteq> None"
    by (simp add: Add_None_bound)
  with assms(2) have "ObjectStore (fst (run P cs2 (snd (Add key obj ctx1), h1))) key \<noteq> None"
    by (rule run_keeps_bound)
  with assms(5,6) have b: "ObjectStore ctx (hd (Split path CHR ''.'')) \<noteq> None"
    by simp
  show ?thesis
    by (simp add: is_retracted [OF b r] IsRetracted_set Retract_def)
qed

theorem retract_before_add_witness:
  "IsRetracted (Retract ''User'' NewDataContext) ''User''
   \<and> ObjectStore (Retract ''User'' NewDataContext) ''User'' = None
   \<and> fst (Add ''User'' (AUser_ptr 0) (Complete (Retract ''User'' NewDataContext))) = None
   \<and> fst (GetValue AUser_pkg ''User.Name''
        (fst (run AUser_pkg [CallComplete, CallAdd ''User'' (AUser_ptr 0), CallGetType ''User'']
           (Retract ''User'' NewDataContext, Watson_heap))) Watson_heap)
       = (ZeroValue, Some FactRetracted)
   \<and> fst (ExecMethod AUser_pkg ''User.GetName'' []
        (fst (run AUser_pkg [CallComplete, CallAdd ''User'' (AUser_ptr 0), CallGetType ''User'']
           (Retract ''User'' NewDataContext, Watson_heap))) Watson_heap)
       = (ZeroValue, Some FactRetracted)"
proof -
  let ?ctx1 = "Complete (Retract ''User'' NewDataContext)"
  let ?ctx = "snd (Add ''User'' (AUser_ptr 0) ?ctx1)"
  have a1: "\<forall>c \<in> set [CallComplete]. \<not> clears_retracted c"
    and a2: "\<forall>c \<in> set [CallGetType ''User'']. \<not> clears_retracted c"
    by simp_all
  have r1: "run AUser_pkg [CallComplete] (Retract ''User'' NewDataContext, Watson_heap)
              = (?ctx1, Watson_heap)"
    by simp
  have ok: "fst (Add ''User'' (AUser_ptr 0) ?ctx1) = None"
    by (simp add: AUser_defs)
  have r2: "run AUser_pkg [CallGetType ''User''] (?ctx, Watson_heap) = (?ctx, Watson_heap)"
    by (simp add: GetType_ctx)
  have k1: "hd (Split ''User.Name'' CHR ''.'') = ''User''"
    and k2: "hd (Split ''User.GetName'' CHR ''.'') = ''User''"
    by (simp_all add: Split_def)
  have u: "ObjectStore (Retract ''User'' NewDataContext) ''User'' = None"
    by (simp add: AUser_defs)
  from ok u r1 retract_before_add [OF a1 a2 r1 ok r2 k1]
    retract_before_add [OF a1 a2 r1 ok r2 k2, of _ "[]"]
  show ?thesis
    by (simp add: GetType_ctx)
qed

end
